theory Spec2Isabelle
  imports Complex_Main
begin

section \<open>Data model\<close>

text \<open>
  The drawing surface keeps its shapes in one loosely typed record (\<open>interface Shape\<close> of
  the canvas component).  A field the interface marks optional (\<open>cx1?: number\<close>) is an
  \<open>option\<close> here, \<open>None\<close> standing for \<open>undefined\<close>.  The field \<open>type\<close> is a string in
  the source and stays one.  JavaScript numbers are modelled as the real numbers they
  denote: rounding of machine arithmetic, infinities and NaN are outside this model, and
  every place where the source could compute with an absent operand or divide by zero is
  made an explicit \<open>None\<close> result below.  A \<open>Point\<close> (\<open>{x, y}\<close>) is a pair.
\<close>

datatype LineStyle = solid | dashed | dotted

datatype ArrowStyle = arrow_none | arrow_start | arrow_end | arrow_both

datatype HatchStyle = hatch_none | hatch_lines | hatch_grid | hatch_dots

datatype DrawingMode =
  pan | m_freehand | m_line | m_bezier | m_rect | m_round_rect | m_circle | m_ellipse
  | m_arc | m_measure | m_measure_radius | m_mark_angle | m_brace | m_text
  | circular_pattern | mirror_axis

datatype PatternDirection = horizontal | vertical | horizontal_neg | vertical_neg

type_synonym Point = "real \<times> real"

record Shape =
  shape_id :: string
  shape_type :: string
  x1 :: real
  y1 :: real
  x2 :: real
  y2 :: real
  cx1 :: "real option"
  cy1 :: "real option"
  cx2 :: "real option"
  cy2 :: "real option"
  shape_text :: "string option"
  textX :: "real option"
  textY :: "real option"
  style :: LineStyle
  arrow :: ArrowStyle
  lineWidth :: real
  fillColor :: "string option"
  strokeColor :: "string option"
  hatchStyle :: "HatchStyle option"
  points :: "Point list option"
  rotation :: "real option"
  startAngle :: "real option"
  endAngle :: "real option"
  cornerRadius :: "real option"
  isGuide :: "bool option"

text \<open>
  The state of the \<open>App\<close> component that the editing operations read and write: the shape
  collection, the two snapshot stacks (\<open>history\<close> for undo, \<open>future\<close> for redo, newest
  entry last), the selection, the drawing mode, the clipboard and the tool parameters.
  The two pattern counts come from numeric inputs with step 1 and are integers here.
  Every new shape receives \<open>Math.random().toString(36).substr(2, 9)\<close> as its id; the
  generator is the environment's, so it is a parameter \<open>rnd\<close> of the operations (the
  sequence of strings that successive calls return) and the state counts the calls made
  so far in \<open>draws\<close>.  The toolbar's own copies of the style values are display state and
  are left out.
\<close>

type_synonym rng = "nat \<Rightarrow> string"

record App =
  shapes :: "Shape list"
  history :: "Shape list list"
  future :: "Shape list list"
  selectedShapeIds :: "string set"
  mode :: DrawingMode
  clipboard :: "Shape list option"
  offsetDistance :: real
  patternDirection :: PatternDirection
  patternCount :: int
  patternSpacing :: real
  circularCount :: int
  draws :: nat

text \<open>\<open>shapes.filter(s => selectedShapeIds.has(s.id))\<close>: the selected shapes in the order
  of the collection.\<close>

definition selectedShapes :: "App \<Rightarrow> Shape list" where
  "selectedShapes st = filter (\<lambda>s. shape_id s \<in> selectedShapeIds st) (shapes st)"

section \<open>Edit history\<close>

definition saveHistory :: "App \<Rightarrow> App" where
  "saveHistory st = st\<lparr>history := history st @ [shapes st], future := []\<rparr>"

text \<open>\<open>previousShapes.find(s => s.id === id)\<close> is truthy exactly when some shape has the id.\<close>

definition hasId :: "Shape list \<Rightarrow> string \<Rightarrow> bool" where
  "hasId ss i = (find (\<lambda>s. shape_id s = i) ss \<noteq> None)"

definition handleUndo :: "App \<Rightarrow> App" where
  "handleUndo st =
     (if length (history st) = 0 then st
      else
        let previousShapes = last (history st) in
        st\<lparr>future := future st @ [shapes st],
           shapes := previousShapes,
           history := butlast (history st),
           selectedShapeIds := Set.filter (hasId previousShapes) (selectedShapeIds st)\<rparr>)"

definition handleRedo :: "App \<Rightarrow> App" where
  "handleRedo st =
     (if length (future st) = 0 then st
      else
        let nextShapes = last (future st) in
        st\<lparr>history := history st @ [shapes st],
           shapes := nextShapes,
           future := butlast (future st),
           selectedShapeIds := Set.filter (hasId nextShapes) (selectedShapeIds st)\<rparr>)"

section \<open>Adding, copying and deleting shapes\<close>

definition handleShapeAdd :: "Shape \<Rightarrow> App \<Rightarrow> App" where
  "handleShapeAdd shape st =
     (let st1 = saveHistory st in st1\<lparr>shapes := shapes st1 @ [shape]\<rparr>)"

definition handleCopy :: "App \<Rightarrow> App" where
  "handleCopy st =
     (if selectedShapeIds st \<noteq> {}
      then st\<lparr>clipboard := Some (selectedShapes st)\<rparr>
      else st)"

text \<open>
  \<open>if (shape.cx1) newShape.cx1 = shape.cx1 + offset\<close>: the test is JavaScript truthiness,
  which a number passes when it is not zero, so an absent field and a field holding 0 are
  both left as they are.
\<close>

definition addIfTruthy :: "real \<Rightarrow> real option \<Rightarrow> real option" where
  "addIfTruthy d c = (case c of None \<Rightarrow> None | Some v \<Rightarrow> if v \<noteq> 0 then Some (v + d) else Some v)"

text \<open>The body of the loops of \<open>handleDuplicate\<close> and \<open>handlePaste\<close>, which is the same
  text in both: the copy of one shape under the new id, moved by \<open>(offset, - offset)\<close>.\<close>

definition offsetCopy :: "real \<Rightarrow> string \<Rightarrow> Shape \<Rightarrow> Shape" where
  "offsetCopy off newId shape =
     (let newShape = shape\<lparr>shape_id := newId,
                           x1 := x1 shape + off, y1 := y1 shape - off,
                           x2 := x2 shape + off, y2 := y2 shape - off\<rparr>;
          newShape = (case points shape of
                        None \<Rightarrow> newShape
                      | Some ps \<Rightarrow> newShape\<lparr>points := Some (map (\<lambda>(px, py). (px + off, py - off)) ps)\<rparr>)
      in if shape_type shape = ''bezier'' \<or> shape_type shape = ''measure''
         then newShape\<lparr>cx1 := addIfTruthy off (cx1 shape),
                       cy1 := addIfTruthy (- off) (cy1 shape),
                       cx2 := addIfTruthy off (cx2 shape),
                       cy2 := addIfTruthy (- off) (cy2 shape)\<rparr>
         else newShape)"

text \<open>\<open>shapes.forEach\<close> of \<open>handleDuplicate\<close>: the new shapes, their ids and the number of
  ids drawn, starting from \<open>k\<close> draws.\<close>

fun duplicateEach :: "rng \<Rightarrow> string set \<Rightarrow> Shape list \<Rightarrow> nat \<Rightarrow> Shape list \<times> string set \<times> nat" where
  "duplicateEach rnd sel [] k = ([], {}, k)"
| "duplicateEach rnd sel (shape # rest) k =
     (if shape_id shape \<in> sel then
        (let newShape = offsetCopy 2 (rnd k) shape in
         case duplicateEach rnd sel rest (Suc k) of
           (newShapes, newIds, k') \<Rightarrow> (newShape # newShapes, insert (shape_id newShape) newIds, k'))
      else duplicateEach rnd sel rest k)"

definition handleDuplicate :: "rng \<Rightarrow> App \<Rightarrow> App" where
  "handleDuplicate rnd st =
     (if selectedShapeIds st = {} then st
      else
        let st1 = saveHistory st in
        case duplicateEach rnd (selectedShapeIds st) (shapes st) (draws st) of
          (newShapes, newIds, k) \<Rightarrow>
            st1\<lparr>shapes := shapes st1 @ newShapes, selectedShapeIds := newIds, draws := k\<rparr>)"

fun pasteEach :: "rng \<Rightarrow> Shape list \<Rightarrow> nat \<Rightarrow> Shape list \<times> string set \<times> nat" where
  "pasteEach rnd [] k = ([], {}, k)"
| "pasteEach rnd (clipShape # rest) k =
     (let newShape = offsetCopy 2 (rnd k) clipShape in
      case pasteEach rnd rest (Suc k) of
        (newShapes, newIds, k') \<Rightarrow> (newShape # newShapes, insert (shape_id newShape) newIds, k'))"

definition handlePaste :: "rng \<Rightarrow> App \<Rightarrow> App" where
  "handlePaste rnd st =
     (case clipboard st of
        None \<Rightarrow> st
      | Some clip \<Rightarrow>
          if length clip > 0 then
            (let st1 = saveHistory st in
             case pasteEach rnd clip (draws st) of
               (newShapes, newIds, k) \<Rightarrow>
                 st1\<lparr>shapes := shapes st1 @ newShapes, selectedShapeIds := newIds, draws := k\<rparr>)
          else st)"

definition handleDelete :: "App \<Rightarrow> App" where
  "handleDelete st =
     (if selectedShapeIds st \<noteq> {} then
        (let st1 = saveHistory st in
         st1\<lparr>shapes := filter (\<lambda>s. shape_id s \<notin> selectedShapeIds st) (shapes st1),
             selectedShapeIds := {}\<rparr>)
      else st)"

definition nudgeShape :: "real \<Rightarrow> real \<Rightarrow> Shape \<Rightarrow> Shape" where
  "nudgeShape ndx ndy s =
     s\<lparr>x1 := x1 s + ndx, y1 := y1 s + ndy, x2 := x2 s + ndx, y2 := y2 s + ndy,
       cx1 := map_option (\<lambda>v. v + ndx) (cx1 s), cy1 := map_option (\<lambda>v. v + ndy) (cy1 s),
       cx2 := map_option (\<lambda>v. v + ndx) (cx2 s), cy2 := map_option (\<lambda>v. v + ndy) (cy2 s),
       textX := map_option (\<lambda>v. v + ndx) (textX s), textY := map_option (\<lambda>v. v + ndy) (textY s),
       points := map_option (map (\<lambda>(px, py). (px + ndx, py + ndy))) (points s)\<rparr>"

definition handleNudge :: "real \<Rightarrow> real \<Rightarrow> App \<Rightarrow> App" where
  "handleNudge ndx ndy st =
     (if selectedShapeIds st = {} then st
      else
        let st1 = saveHistory st in
        st1\<lparr>shapes := map (\<lambda>s. if shape_id s \<notin> selectedShapeIds st then s else nudgeShape ndx ndy s)
                          (shapes st1)\<rparr>)"

text \<open>\<open>updateSelectedProperty(key, value)\<close> is called from the toolbar with these keys.\<close>

datatype Property =
  P_style LineStyle | P_arrow ArrowStyle | P_lineWidth real | P_fillColor string
  | P_strokeColor string | P_hatchStyle HatchStyle | P_cornerRadius real

fun setProperty :: "Property \<Rightarrow> Shape \<Rightarrow> Shape" where
  "setProperty (P_style v) s = s\<lparr>style := v\<rparr>"
| "setProperty (P_arrow v) s = s\<lparr>arrow := v\<rparr>"
| "setProperty (P_lineWidth v) s = s\<lparr>lineWidth := v\<rparr>"
| "setProperty (P_fillColor v) s = s\<lparr>fillColor := Some v\<rparr>"
| "setProperty (P_strokeColor v) s = s\<lparr>strokeColor := Some v\<rparr>"
| "setProperty (P_hatchStyle v) s = s\<lparr>hatchStyle := Some v\<rparr>"
| "setProperty (P_cornerRadius v) s = s\<lparr>cornerRadius := Some v\<rparr>"

definition updateSelectedProperty :: "Property \<Rightarrow> App \<Rightarrow> App" where
  "updateSelectedProperty p st =
     (if selectedShapeIds st \<noteq> {} then
        (let st1 = saveHistory st in
         st1\<lparr>shapes := map (\<lambda>s. if shape_id s \<in> selectedShapeIds st then setProperty p s else s)
                           (shapes st1)\<rparr>)
      else st)"

section \<open>Linear pattern\<close>

text \<open>The copy built in the inner loop of \<open>handleLinearPattern\<close>; \<open>(shape.cx1 || 0) + offX\<close>
  under the test \<open>shape.cx1 !== undefined\<close> is \<open>cx1 + offX\<close> on a present field.\<close>

definition linearCopy :: "real \<Rightarrow> real \<Rightarrow> string \<Rightarrow> Shape \<Rightarrow> Shape" where
  "linearCopy offX offY newId shape =
     shape\<lparr>shape_id := newId,
           x1 := x1 shape + offX, y1 := y1 shape + offY,
           x2 := x2 shape + offX, y2 := y2 shape + offY,
           cx1 := map_option (\<lambda>v. v + offX) (cx1 shape),
           cy1 := map_option (\<lambda>v. v + offY) (cy1 shape),
           cx2 := map_option (\<lambda>v. v + offX) (cx2 shape),
           cy2 := map_option (\<lambda>v. v + offY) (cy2 shape),
           textX := map_option (\<lambda>v. v + offX) (textX shape),
           textY := map_option (\<lambda>v. v + offY) (textY shape),
           points := map_option (map (\<lambda>(px, py). (px + offX, py + offY))) (points shape)\<rparr>"

text \<open>\<open>for (let i = 1; i < patternCount; i++)\<close>, entered at index \<open>i\<close> with \<open>k\<close> ids drawn.\<close>

function linearCopies ::
  "rng \<Rightarrow> real \<Rightarrow> real \<Rightarrow> Shape \<Rightarrow> int \<Rightarrow> int \<Rightarrow> nat \<Rightarrow> Shape list \<times> string set \<times> nat" where
  "linearCopies rnd dx dy shape cnt i k =
     (if i < cnt then
        (let newShape = linearCopy (dx * of_int i) (dy * of_int i) (rnd k) shape in
         case linearCopies rnd dx dy shape cnt (i + 1) (Suc k) of
           (newShapes, newIds, k') \<Rightarrow> (newShape # newShapes, insert (shape_id newShape) newIds, k'))
      else ([], {}, k))"
  by pat_completeness auto
termination
  by (relation "measure (\<lambda>(rnd, dx, dy, shape, cnt, i, k). nat (cnt - i))") auto

fun linearEach ::
  "rng \<Rightarrow> real \<Rightarrow> real \<Rightarrow> int \<Rightarrow> string set \<Rightarrow> Shape list \<Rightarrow> nat \<Rightarrow> Shape list \<times> string set \<times> nat" where
  "linearEach rnd dx dy cnt sel [] k = ([], {}, k)"
| "linearEach rnd dx dy cnt sel (shape # rest) k =
     (if shape_id shape \<in> sel then
        (case linearCopies rnd dx dy shape cnt 1 k of
           (copies, copyIds, k1) \<Rightarrow>
             (case linearEach rnd dx dy cnt sel rest k1 of
                (newShapes, newIds, k') \<Rightarrow>
                  (copies @ newShapes, insert (shape_id shape) (copyIds \<union> newIds), k')))
      else linearEach rnd dx dy cnt sel rest k)"

definition stepVector :: "PatternDirection \<Rightarrow> real \<Rightarrow> real \<times> real" where
  "stepVector dir spacing =
     (if dir = horizontal then (spacing, 0)
      else if dir = horizontal_neg then (- spacing, 0)
      else if dir = vertical then (0, spacing)
      else if dir = vertical_neg then (0, - spacing)
      else (0, 0))"

definition handleLinearPattern :: "rng \<Rightarrow> App \<Rightarrow> App" where
  "handleLinearPattern rnd st =
     (if selectedShapeIds st = {} then st
      else if patternCount st < 2 then st
      else
        let st1 = saveHistory st;
            (dx, dy) = stepVector (patternDirection st) (patternSpacing st) in
        case linearEach rnd dx dy (patternCount st) (selectedShapeIds st) (shapes st) (draws st) of
          (newShapes, newIds, k) \<Rightarrow>
            st1\<lparr>shapes := shapes st1 @ newShapes, selectedShapeIds := newIds, draws := k\<rparr>)"

section \<open>Offset\<close>

text \<open>
  \<open>Math.atan2(y, x)\<close> on real arguments, as ECMAScript defines it: the angle of the vector
  \<open>(x, y)\<close> in \<open>(- pi, pi]\<close>, and 0 for the zero vector.
\<close>

definition atan2 :: "real \<Rightarrow> real \<Rightarrow> real" where
  "atan2 y x =
     (if 0 < x then arctan (y / x)
      else if x < 0 then (if 0 \<le> y then arctan (y / x) + pi else arctan (y / x) - pi)
      else if 0 < y then pi / 2
      else if y < 0 then - (pi / 2)
      else 0)"

text \<open>The body of the loop of \<open>handleOffset\<close> for one selected shape: \<open>None\<close> is the source's
  \<open>newShape = null\<close>, a shape that is skipped.  The id is drawn only inside a branch that
  builds a shape.\<close>

definition offsetShape :: "real \<Rightarrow> string \<Rightarrow> Shape \<Rightarrow> Shape option" where
  "offsetShape distance newId s =
     (if shape_type s = ''rect'' \<or> shape_type s = ''round_rect'' then
        (let minX = min (x1 s) (x2 s); maxX = max (x1 s) (x2 s);
             minY = min (y1 s) (y2 s); maxY = max (y1 s) (y2 s);
             nMinX = minX + distance; nMaxX = maxX - distance;
             nMinY = minY + distance; nMaxY = maxY - distance
         in if nMaxX > nMinX \<and> nMaxY > nMinY
            then Some (s\<lparr>shape_id := newId, x1 := nMinX, y1 := nMinY, x2 := nMaxX, y2 := nMaxY\<rparr>)
            else None)
      else if shape_type s = ''circle'' then
        (let radius = sqrt ((x2 s - x1 s)\<^sup>2 + (y2 s - y1 s)\<^sup>2);
             newRadius = radius - distance
         in if newRadius > 0
            then (let angle = atan2 (y2 s - y1 s) (x2 s - x1 s)
                  in Some (s\<lparr>shape_id := newId,
                              x2 := x1 s + newRadius * cos angle,
                              y2 := y1 s + newRadius * sin angle\<rparr>))
            else None)
      else if shape_type s = ''ellipse'' then
        (let rx = \<bar>x2 s - x1 s\<bar>; ry = \<bar>y2 s - y1 s\<bar>;
             nRx = rx - distance; nRy = ry - distance
         in if nRx > 0 \<and> nRy > 0
            then (let signX = (if x2 s \<ge> x1 s then 1 else - 1);
                      signY = (if y2 s \<ge> y1 s then 1 else - 1)
                  in Some (s\<lparr>shape_id := newId,
                              x2 := x1 s + signX * nRx,
                              y2 := y1 s + signY * nRy\<rparr>))
            else None)
      else None)"

fun offsetEach :: "rng \<Rightarrow> real \<Rightarrow> string set \<Rightarrow> Shape list \<Rightarrow> nat \<Rightarrow> Shape list \<times> string set \<times> nat" where
  "offsetEach rnd distance sel [] k = ([], {}, k)"
| "offsetEach rnd distance sel (s # rest) k =
     (if shape_id s \<notin> sel then offsetEach rnd distance sel rest k
      else
        case offsetShape distance (rnd k) s of
          None \<Rightarrow> offsetEach rnd distance sel rest k
        | Some newShape \<Rightarrow>
            (case offsetEach rnd distance sel rest (Suc k) of
               (newShapes, newIds, k') \<Rightarrow>
                 (newShape # newShapes, insert (shape_id newShape) newIds, k')))"

definition handleOffset :: "rng \<Rightarrow> App \<Rightarrow> App" where
  "handleOffset rnd st =
     (if selectedShapeIds st = {} then st
      else
        let st1 = saveHistory st in
        case offsetEach rnd (offsetDistance st) (selectedShapeIds st) (shapes st) (draws st) of
          (newShapes, newIds, k) \<Rightarrow>
            if length newShapes > 0
            then st1\<lparr>shapes := shapes st1 @ newShapes, selectedShapeIds := newIds, draws := k\<rparr>
            else st1\<lparr>draws := k\<rparr>)"

section \<open>Circular pattern\<close>

text \<open>\<open>s.rotation || 0\<close>: an absent field counts as 0.\<close>

definition orZero :: "real option \<Rightarrow> real" where
  "orZero v = (case v of None \<Rightarrow> 0 | Some r \<Rightarrow> r)"

definition rotatePoint :: "real \<Rightarrow> real \<Rightarrow> real \<Rightarrow> real \<Rightarrow> real \<Rightarrow> Point" where
  "rotatePoint px py pivotX pivotY angle =
     (let c = cos angle; sn = sin angle;
          nx = (c * (px - pivotX)) - (sn * (py - pivotY)) + pivotX;
          ny = (sn * (px - pivotX)) + (c * (py - pivotY)) + pivotY
      in (nx, ny))"

text \<open>
  \<open>if (s.cx1 !== undefined) { const p = rotatePoint(s.cx1, s.cy1!, ...); ns.cx1 = p.x; ns.cy1 = p.y; }\<close>
  on a pair of optional fields: with the first absent both stay; with both present both are
  replaced; with the first present and the second absent the source computes with
  \<open>undefined\<close> and stores NaN, which is the result \<open>None\<close> here.
\<close>

definition rotatePair ::
  "real \<Rightarrow> real \<Rightarrow> real \<Rightarrow> real option \<Rightarrow> real option \<Rightarrow> (real option \<times> real option) option" where
  "rotatePair pivotX pivotY angle ox oy =
     (case ox of
        None \<Rightarrow> Some (None, oy)
      | Some a \<Rightarrow>
          (case oy of
             None \<Rightarrow> None
           | Some b \<Rightarrow> (let p = rotatePoint a b pivotX pivotY angle in Some (Some (fst p), Some (snd p)))))"

text \<open>The body of the inner loop of \<open>handleCircularPatternCenter\<close>: the copy of \<open>s\<close> at
  \<open>angle\<close> about the pivot \<open>(cx, cy)\<close>.\<close>

definition circularCopy :: "real \<Rightarrow> real \<Rightarrow> real \<Rightarrow> string \<Rightarrow> Shape \<Rightarrow> Shape option" where
  "circularCopy cx cy angle newId s =
     (let ns = s\<lparr>shape_id := newId\<rparr>;
          isBoxBased = (shape_type s \<in> set [''rect'', ''text'', ''arc'', ''ellipse'', ''circle'', ''round_rect''])
      in
      if isBoxBased then
        (let centered = (shape_type s \<in> set [''circle'', ''ellipse'', ''arc'', ''text'']);
             midX = (if centered then x1 s else (x1 s + x2 s) / 2);
             midY = (if centered then y1 s else (y1 s + y2 s) / 2);
             rotatedCenter = rotatePoint midX midY cx cy angle;
             dx = x2 s - x1 s;
             dy = y2 s - y1 s;
             ns = (if centered
                   then ns\<lparr>x1 := fst rotatedCenter, y1 := snd rotatedCenter,
                           x2 := fst rotatedCenter + dx, y2 := snd rotatedCenter + dy\<rparr>
                   else ns\<lparr>x1 := fst rotatedCenter - dx / 2, y1 := snd rotatedCenter - dy / 2,
                           x2 := fst rotatedCenter + dx / 2, y2 := snd rotatedCenter + dy / 2\<rparr>)
         in
         case rotatePair midX midY angle (cx1 s) (cy1 s) of None \<Rightarrow> None | Some (ax, ay) \<Rightarrow>
         case rotatePair midX midY angle (cx2 s) (cy2 s) of None \<Rightarrow> None | Some (bx, by) \<Rightarrow>
         case rotatePair midX midY angle (textX s) (textY s) of None \<Rightarrow> None | Some (tx, ty) \<Rightarrow>
           Some (ns\<lparr>cx1 := ax, cy1 := ay, cx2 := bx, cy2 := by, textX := tx, textY := ty,
                    rotation := Some (orZero (rotation s) + angle)\<rparr>))
      else
        (let p1 = rotatePoint (x1 s) (y1 s) cx cy angle;
             p2 = rotatePoint (x2 s) (y2 s) cx cy angle;
             ns = ns\<lparr>x1 := fst p1, y1 := snd p1, x2 := fst p2, y2 := snd p2\<rparr>
         in
         case rotatePair cx cy angle (cx1 s) (cy1 s) of None \<Rightarrow> None | Some (ax, ay) \<Rightarrow>
         case rotatePair cx cy angle (cx2 s) (cy2 s) of None \<Rightarrow> None | Some (bx, by) \<Rightarrow>
         case rotatePair cx cy angle (textX s) (textY s) of None \<Rightarrow> None | Some (tx, ty) \<Rightarrow>
           Some (ns\<lparr>cx1 := ax, cy1 := ay, cx2 := bx, cy2 := by, textX := tx, textY := ty,
                    points := map_option (map (\<lambda>(px, py). rotatePoint px py cx cy angle)) (points s)\<rparr>)))"

text \<open>\<open>for (let i = 1; i < circularCount; i++)\<close>, entered at index \<open>i\<close> with \<open>k\<close> ids drawn.\<close>

function circularCopies ::
  "rng \<Rightarrow> real \<Rightarrow> real \<Rightarrow> real \<Rightarrow> Shape \<Rightarrow> int \<Rightarrow> int \<Rightarrow> nat \<Rightarrow> (Shape list \<times> string set \<times> nat) option" where
  "circularCopies rnd cx cy angleStep s cnt i k =
     (if i < cnt then
        (let angle = of_int i * angleStep in
         case circularCopy cx cy angle (rnd k) s of
           None \<Rightarrow> None
         | Some ns \<Rightarrow>
             (case circularCopies rnd cx cy angleStep s cnt (i + 1) (Suc k) of
                None \<Rightarrow> None
              | Some (newShapes, newIds, k') \<Rightarrow>
                  Some (ns # newShapes, insert (shape_id ns) newIds, k')))
      else Some ([], {}, k))"
  by pat_completeness auto
termination
  by (relation "measure (\<lambda>(rnd, cx, cy, angleStep, s, cnt, i, k). nat (cnt - i))") auto

declare circularCopies.simps [simp del]

fun circularEach ::
  "rng \<Rightarrow> real \<Rightarrow> real \<Rightarrow> real \<Rightarrow> int \<Rightarrow> Shape list \<Rightarrow> nat \<Rightarrow> (Shape list \<times> string set \<times> nat) option" where
  "circularEach rnd cx cy angleStep cnt [] k = Some ([], {}, k)"
| "circularEach rnd cx cy angleStep cnt (s # rest) k =
     (case circularCopies rnd cx cy angleStep s cnt 1 k of
        None \<Rightarrow> None
      | Some (copies, copyIds, k1) \<Rightarrow>
          (case circularEach rnd cx cy angleStep cnt rest k1 of
             None \<Rightarrow> None
           | Some (newShapes, newIds, k') \<Rightarrow>
               Some (copies @ newShapes, insert (shape_id s) (copyIds \<union> newIds), k')))"

text \<open>
  The running bounds \<open>(minX, maxX, minY, maxY)\<close> of the selection.  The source starts them
  at \<open>(Infinity, -Infinity, Infinity, -Infinity)\<close>, which is \<open>None\<close> here: the state before the
  first shape.
\<close>

fun growBounds :: "(real \<times> real \<times> real \<times> real) option \<Rightarrow> Shape \<Rightarrow> (real \<times> real \<times> real \<times> real) option" where
  "growBounds None s =
     Some (min (x1 s) (x2 s), max (x1 s) (x2 s), min (y1 s) (y2 s), max (y1 s) (y2 s))"
| "growBounds (Some (minX, maxX, minY, maxY)) s =
     Some (min (min minX (x1 s)) (x2 s), max (max maxX (x1 s)) (x2 s),
           min (min minY (y1 s)) (y2 s), max (max maxY (y1 s)) (y2 s))"

text \<open>
  What that fold leaves in \<open>(selCenterX, selCenterY)\<close> for a non-empty list, in closed form:
  the center of the box spanned by the two stored points \<open>(x1, y1)\<close> and \<open>(x2, y2)\<close> of
  every shape.  For a rect or a line that box is the bounding box of the shape; for a
  circle, an ellipse or an arc, which store the center and a rim point, it is not.
\<close>

definition storedPointsCenter :: "Shape list \<Rightarrow> Point" where
  "storedPointsCenter ss =
     ((Min (\<Union>s \<in> set ss. {x1 s, x2 s}) + Max (\<Union>s \<in> set ss. {x1 s, x2 s})) / 2,
      (Min (\<Union>s \<in> set ss. {y1 s, y2 s}) + Max (\<Union>s \<in> set ss. {y1 s, y2 s})) / 2)"

text \<open>
  The handler.  \<open>None\<close> is a run that stores NaN in a shape: with no selected shape in the
  collection the bounds stay infinite and the guide radius is NaN, and a copy may hit an
  absent coordinate (see \<open>rotatePair\<close>).
\<close>

definition handleCircularPatternCenter :: "rng \<Rightarrow> real \<Rightarrow> real \<Rightarrow> App \<Rightarrow> App option" where
  "handleCircularPatternCenter rnd cx cy st =
     (if selectedShapeIds st = {} \<or> circularCount st < 2 then Some st
      else
        let st1 = saveHistory st;
            sel = selectedShapes st
        in
        case foldl growBounds None sel of
          None \<Rightarrow> None
        | Some (minX, maxX, minY, maxY) \<Rightarrow>
            (let selCenterX = (minX + maxX) / 2;
                 selCenterY = (minY + maxY) / 2;
                 radius = sqrt ((selCenterX - cx)\<^sup>2 + (selCenterY - cy)\<^sup>2);
                 guideCircle =
                   \<lparr>shape_id = rnd (draws st), shape_type = ''circle'',
                    x1 = cx, y1 = cy, x2 = cx + radius, y2 = cy,
                    cx1 = None, cy1 = None, cx2 = None, cy2 = None, shape_text = None,
                    textX = None, textY = None, style = dashed, arrow = arrow_none,
                    lineWidth = 1, fillColor = Some ''none'', strokeColor = Some ''#94a3b8'',
                    hatchStyle = None, points = None, rotation = None, startAngle = None,
                    endAngle = None, cornerRadius = None, isGuide = Some True\<rparr>;
                 angleStep = (2 * pi) / of_int (circularCount st)
             in
             case circularEach rnd cx cy angleStep (circularCount st) sel (Suc (draws st)) of
               None \<Rightarrow> None
             | Some (copies, newIds, k) \<Rightarrow>
                 Some (st1\<lparr>shapes := shapes st1 @ (guideCircle # copies),
                           selectedShapeIds := newIds, mode := pan, draws := k\<rparr>)))"

section \<open>Mirror\<close>

text \<open>\<open>Math.round(num * 10000) / 10000\<close>; \<open>Math.round\<close> is the floor of its argument plus a
  half.\<close>

definition round4 :: "real \<Rightarrow> real" where
  "round4 num = of_int \<lfloor>num * 10000 + 1 / 2\<rfloor> / 10000"

text \<open>A division whose divisor is a variable: by zero JavaScript gives NaN or an infinity,
  which is the result \<open>None\<close> here.\<close>

definition jsDivide :: "real \<Rightarrow> real \<Rightarrow> real option" where
  "jsDivide a b = (if b = 0 then None else Some (a / b))"

definition reflectPoint :: "real \<Rightarrow> real \<Rightarrow> real \<Rightarrow> real \<Rightarrow> real \<Rightarrow> real \<Rightarrow> Point option" where
  "reflectPoint lineX1 lineY1 lineX2 lineY2 px py =
     (let dx = lineX2 - lineX1;
          dy = lineY2 - lineY1
      in
      if dx = 0 \<and> dy = 0 then Some (px, py)
      else
        case jsDivide (dx * dx - dy * dy) (dx * dx + dy * dy) of None \<Rightarrow> None | Some a \<Rightarrow>
        case jsDivide (2 * dx * dy) (dx * dx + dy * dy) of None \<Rightarrow> None | Some b \<Rightarrow>
          (let rx = a * (px - lineX1) + b * (py - lineY1) + lineX1;
               ry = b * (px - lineX1) - a * (py - lineY1) + lineY1
           in Some (round4 rx, round4 ry)))"

text \<open>
  \<open>if (ns.cx1 !== undefined) { const p = reflectPoint(s.cx1!, s.cy1!); ns.cx1 = p.x; ns.cy1 = p.y; }\<close>
  on a pair of optional fields.  With the first present and the second absent, a
  zero-length line hands the pair back as it is and any other line computes with
  \<open>undefined\<close>, which is \<open>None\<close> here.
\<close>

definition reflectPair ::
  "real \<Rightarrow> real \<Rightarrow> real \<Rightarrow> real \<Rightarrow> real option \<Rightarrow> real option \<Rightarrow> (real option \<times> real option) option" where
  "reflectPair lineX1 lineY1 lineX2 lineY2 ox oy =
     (case ox of
        None \<Rightarrow> Some (None, oy)
      | Some a \<Rightarrow>
          (case oy of
             None \<Rightarrow> (if lineX2 - lineX1 = 0 \<and> lineY2 - lineY1 = 0 then Some (Some a, None) else None)
           | Some b \<Rightarrow>
               (case reflectPoint lineX1 lineY1 lineX2 lineY2 a b of
                  None \<Rightarrow> None
                | Some p \<Rightarrow> Some (Some (fst p), Some (snd p)))))"

text \<open>\<open>ns.points.map(p => reflectPoint(p.x, p.y))\<close>.\<close>

fun reflectPoints :: "real \<Rightarrow> real \<Rightarrow> real \<Rightarrow> real \<Rightarrow> Point list \<Rightarrow> Point list option" where
  "reflectPoints lineX1 lineY1 lineX2 lineY2 [] = Some []"
| "reflectPoints lineX1 lineY1 lineX2 lineY2 ((px, py) # ps) =
     (case reflectPoint lineX1 lineY1 lineX2 lineY2 px py of
        None \<Rightarrow> None
      | Some q \<Rightarrow>
          (case reflectPoints lineX1 lineY1 lineX2 lineY2 ps of
             None \<Rightarrow> None
           | Some qs \<Rightarrow> Some (q # qs)))"

text \<open>
  The body of the loop of \<open>performMirror\<close> for one selected shape.  For circle, ellipse and
  arc the source first sets \<open>x2, y2\<close> from the width and height and then overwrites them
  with the reflected rim point; the value that stays is modelled.
\<close>

definition mirrorShape :: "real \<Rightarrow> real \<Rightarrow> real \<Rightarrow> real \<Rightarrow> string \<Rightarrow> Shape \<Rightarrow> Shape option" where
  "mirrorShape lineX1 lineY1 lineX2 lineY2 newId s =
     (let lineAngle = atan2 (lineY2 - lineY1) (lineX2 - lineX1);
          ns = s\<lparr>shape_id := newId\<rparr>;
          isBoxBased = (shape_type s \<in> set [''rect'', ''round_rect'', ''text'', ''circle'', ''ellipse'', ''arc''])
      in
      if isBoxBased then
        (let isRect = (shape_type s = ''rect'' \<or> shape_type s = ''round_rect'');
             cx = (if isRect then (x1 s + x2 s) / 2 else x1 s);
             cy = (if isRect then (y1 s + y2 s) / 2 else y1 s)
         in
         case reflectPoint lineX1 lineY1 lineX2 lineY2 cx cy of None \<Rightarrow> None | Some centerReflected \<Rightarrow>
         (let width = \<bar>x2 s - x1 s\<bar>;
              height = \<bar>y2 s - y1 s\<bar>
          in
          case (if isRect then
                  Some (ns\<lparr>x1 := fst centerReflected - width / 2, x2 := fst centerReflected + width / 2,
                           y1 := snd centerReflected - height / 2, y2 := snd centerReflected + height / 2\<rparr>)
                else if shape_type s = ''text'' then
                  Some (ns\<lparr>x1 := fst centerReflected, y1 := snd centerReflected,
                           x2 := fst centerReflected, y2 := snd centerReflected\<rparr>)
                else
                  (case reflectPoint lineX1 lineY1 lineX2 lineY2 (x2 s) (y2 s) of
                     None \<Rightarrow> None
                   | Some rP \<Rightarrow>
                       Some (ns\<lparr>x1 := fst centerReflected, y1 := snd centerReflected,
                                x2 := fst rP, y2 := snd rP\<rparr>)))
          of None \<Rightarrow> None | Some ns \<Rightarrow>
          (let oldRot = orZero (rotation s);
               ns = ns\<lparr>rotation := Some (2 * lineAngle - oldRot)\<rparr>;
               ns = (if shape_type s = ''arc''
                     then (let start = orZero (startAngle s);
                               endA = orZero (endAngle s)
                           in ns\<lparr>startAngle := Some (2 * lineAngle - endA),
                                 endAngle := Some (2 * lineAngle - start)\<rparr>)
                     else ns)
           in
           case reflectPair lineX1 lineY1 lineX2 lineY2 (textX s) (textY s) of
             None \<Rightarrow> None
           | Some (tx, ty) \<Rightarrow> Some (ns\<lparr>textX := tx, textY := ty\<rparr>))))
      else
        (case reflectPoint lineX1 lineY1 lineX2 lineY2 (x1 s) (y1 s) of None \<Rightarrow> None | Some p1 \<Rightarrow>
         case reflectPoint lineX1 lineY1 lineX2 lineY2 (x2 s) (y2 s) of None \<Rightarrow> None | Some p2 \<Rightarrow>
         case reflectPair lineX1 lineY1 lineX2 lineY2 (cx1 s) (cy1 s) of None \<Rightarrow> None | Some (ax, ay) \<Rightarrow>
         case reflectPair lineX1 lineY1 lineX2 lineY2 (cx2 s) (cy2 s) of None \<Rightarrow> None | Some (bx, by) \<Rightarrow>
         case (case points s of
                 None \<Rightarrow> Some None
               | Some ps \<Rightarrow> map_option Some (reflectPoints lineX1 lineY1 lineX2 lineY2 ps))
         of None \<Rightarrow> None | Some pts \<Rightarrow>
           Some (ns\<lparr>x1 := fst p1, y1 := snd p1, x2 := fst p2, y2 := snd p2,
                    cx1 := ax, cy1 := ay, cx2 := bx, cy2 := by, points := pts\<rparr>)))"

fun mirrorEach ::
  "rng \<Rightarrow> real \<Rightarrow> real \<Rightarrow> real \<Rightarrow> real \<Rightarrow> string set \<Rightarrow> Shape list \<Rightarrow> nat
     \<Rightarrow> (Shape list \<times> string set \<times> nat) option" where
  "mirrorEach rnd lineX1 lineY1 lineX2 lineY2 sel [] k = Some ([], {}, k)"
| "mirrorEach rnd lineX1 lineY1 lineX2 lineY2 sel (s # rest) k =
     (if shape_id s \<notin> sel then mirrorEach rnd lineX1 lineY1 lineX2 lineY2 sel rest k
      else
        case mirrorShape lineX1 lineY1 lineX2 lineY2 (rnd k) s of
          None \<Rightarrow> None
        | Some ns \<Rightarrow>
            (case mirrorEach rnd lineX1 lineY1 lineX2 lineY2 sel rest (Suc k) of
               None \<Rightarrow> None
             | Some (generatedShapes, generatedIds, k') \<Rightarrow>
                 Some (ns # generatedShapes, insert (shape_id ns) generatedIds, k')))"

definition performMirror :: "rng \<Rightarrow> real \<Rightarrow> real \<Rightarrow> real \<Rightarrow> real \<Rightarrow> App \<Rightarrow> App option" where
  "performMirror rnd lineX1 lineY1 lineX2 lineY2 st =
     (let st1 = saveHistory st in
      case mirrorEach rnd lineX1 lineY1 lineX2 lineY2 (selectedShapeIds st) (shapes st) (draws st) of
        None \<Rightarrow> None
      | Some (generatedShapes, generatedIds, k) \<Rightarrow>
          Some (st1\<lparr>shapes := shapes st1 @ generatedShapes, selectedShapeIds := generatedIds,
                    mode := pan, draws := k\<rparr>))"

definition handleMirrorTool :: "App \<Rightarrow> App" where
  "handleMirrorTool st = (if selectedShapeIds st = {} then st else st\<lparr>mode := mirror_axis\<rparr>)"

section \<open>The mutating operations\<close>

text \<open>
  The operations that change the shape collection, as one type, and the handler each one
  runs.  \<open>takesEffect\<close> is the condition under which the handler gets past its early
  return; \<open>handleShapeAdd\<close> and \<open>performMirror\<close> have none.
\<close>

datatype Action =
  ShapeAdd Shape | Duplicate | Paste | LinearPattern | CircularPattern real real | Offset
  | Mirror real real real real | Nudge real real | Delete | UpdateProperty Property

fun perform :: "rng \<Rightarrow> Action \<Rightarrow> App \<Rightarrow> App option" where
  "perform rnd (ShapeAdd shape) st = Some (handleShapeAdd shape st)"
| "perform rnd Duplicate st = Some (handleDuplicate rnd st)"
| "perform rnd Paste st = Some (handlePaste rnd st)"
| "perform rnd LinearPattern st = Some (handleLinearPattern rnd st)"
| "perform rnd (CircularPattern cx cy) st = handleCircularPatternCenter rnd cx cy st"
| "perform rnd Offset st = Some (handleOffset rnd st)"
| "perform rnd (Mirror lineX1 lineY1 lineX2 lineY2) st = performMirror rnd lineX1 lineY1 lineX2 lineY2 st"
| "perform rnd (Nudge ndx ndy) st = Some (handleNudge ndx ndy st)"
| "perform rnd Delete st = Some (handleDelete st)"
| "perform rnd (UpdateProperty p) st = Some (updateSelectedProperty p st)"

fun takesEffect :: "Action \<Rightarrow> App \<Rightarrow> bool" where
  "takesEffect (ShapeAdd shape) st = True"
| "takesEffect Duplicate st = (selectedShapeIds st \<noteq> {})"
| "takesEffect Paste st = (case clipboard st of None \<Rightarrow> False | Some clip \<Rightarrow> length clip > 0)"
| "takesEffect LinearPattern st = (selectedShapeIds st \<noteq> {} \<and> \<not> patternCount st < 2)"
| "takesEffect (CircularPattern cx cy) st = (\<not> (selectedShapeIds st = {} \<or> circularCount st < 2))"
| "takesEffect Offset st = (selectedShapeIds st \<noteq> {})"
| "takesEffect (Mirror lineX1 lineY1 lineX2 lineY2) st = True"
| "takesEffect (Nudge ndx ndy) st = (selectedShapeIds st \<noteq> {})"
| "takesEffect Delete st = (selectedShapeIds st \<noteq> {})"
| "takesEffect (UpdateProperty p) st = (selectedShapeIds st \<noteq> {})"

section \<open>Notions of the specification\<close>

text \<open>The radius of a circle, whose \<open>(x1, y1)\<close> is the center and \<open>(x2, y2)\<close> a rim point;
  the edges of a rectangle, whose two corners are stored in either order; the radii of an
  ellipse.\<close>

definition circleRadius :: "Shape \<Rightarrow> real" where
  "circleRadius s = sqrt ((x2 s - x1 s)\<^sup>2 + (y2 s - y1 s)\<^sup>2)"

definition leftEdge :: "Shape \<Rightarrow> real" where "leftEdge s = min (x1 s) (x2 s)"
definition rightEdge :: "Shape \<Rightarrow> real" where "rightEdge s = max (x1 s) (x2 s)"
definition bottomEdge :: "Shape \<Rightarrow> real" where "bottomEdge s = min (y1 s) (y2 s)"
definition topEdge :: "Shape \<Rightarrow> real" where "topEdge s = max (y1 s) (y2 s)"

definition radiusX :: "Shape \<Rightarrow> real" where "radiusX s = \<bar>x2 s - x1 s\<bar>"
definition radiusY :: "Shape \<Rightarrow> real" where "radiusY s = \<bar>y2 s - y1 s\<bar>"

text \<open>A shape of one of the three sized kinds has strictly positive extent.\<close>

definition positiveSize :: "Shape \<Rightarrow> bool" where
  "positiveSize c \<longleftrightarrow>
     (shape_type c = ''circle'' \<longrightarrow> circleRadius c > 0)
     \<and> (shape_type c = ''rect'' \<or> shape_type c = ''round_rect'' \<longrightarrow>
          rightEdge c - leftEdge c > 0 \<and> topEdge c - bottomEdge c > 0)
     \<and> (shape_type c = ''ellipse'' \<longrightarrow> radiusX c > 0 \<and> radiusY c > 0)"

text \<open>The four axis-aligned directions as unit vectors.\<close>

definition directionUnit :: "PatternDirection \<Rightarrow> real \<times> real" where
  "directionUnit dir = (case dir of horizontal \<Rightarrow> (1, 0) | horizontal_neg \<Rightarrow> (- 1, 0)
                        | vertical \<Rightarrow> (0, 1) | vertical_neg \<Rightarrow> (0, - 1))"

text \<open>
  \<open>c\<close> is \<open>s\<close> translated by \<open>(tx, ty)\<close>: every coordinate field present on \<open>s\<close> (both
  endpoints, control points, label anchor, point list) is moved by the vector, and apart
  from the id every other field is the one of \<open>s\<close>.
\<close>

definition isTranslateOf :: "real \<Rightarrow> real \<Rightarrow> Shape \<Rightarrow> Shape \<Rightarrow> bool" where
  "isTranslateOf tx ty s c \<longleftrightarrow>
     c = s\<lparr>shape_id := shape_id c,
           x1 := x1 s + tx, y1 := y1 s + ty, x2 := x2 s + tx, y2 := y2 s + ty,
           cx1 := map_option (\<lambda>v. v + tx) (cx1 s), cy1 := map_option (\<lambda>v. v + ty) (cy1 s),
           cx2 := map_option (\<lambda>v. v + tx) (cx2 s), cy2 := map_option (\<lambda>v. v + ty) (cy2 s),
           textX := map_option (\<lambda>v. v + tx) (textX s), textY := map_option (\<lambda>v. v + ty) (textY s),
           points := map_option (map (\<lambda>(px, py). (px + tx, py + ty))) (points s)\<rparr>"

text \<open>
  Two coordinates agree up to the rounding of two reflections; two optional coordinates are
  both absent or both present and agree so; two optional point lists likewise, point by
  point.
\<close>

definition near :: "real \<Rightarrow> real \<Rightarrow> bool" where
  "near u v \<longleftrightarrow> \<bar>u - v\<bar> \<le> 1 / 8000"

definition nearOpt :: "real option \<Rightarrow> real option \<Rightarrow> bool" where
  "nearOpt ou ov =
     (case ou of None \<Rightarrow> ov = None
      | Some u \<Rightarrow> (case ov of None \<Rightarrow> False | Some v \<Rightarrow> near u v))"

definition nearPoints :: "Point list option \<Rightarrow> Point list option \<Rightarrow> bool" where
  "nearPoints oqs ops =
     (case oqs of None \<Rightarrow> ops = None
      | Some qs \<Rightarrow>
          (case ops of None \<Rightarrow> False
           | Some ps \<Rightarrow> list_all2 (\<lambda>q p. near (fst q) (fst p) \<and> near (snd q) (snd p)) qs ps))"

text \<open>An optional X coordinate comes with its Y coordinate, as the canvas sets them.\<close>

definition pairedCoordinates :: "Shape \<Rightarrow> bool" where
  "pairedCoordinates s \<longleftrightarrow>
     (cx1 s \<noteq> None \<longrightarrow> cy1 s \<noteq> None) \<and> (cx2 s \<noteq> None \<longrightarrow> cy2 s \<noteq> None)
     \<and> (textX s \<noteq> None \<longrightarrow> textY s \<noteq> None)"

text \<open>
  The shape \<open>s2\<close> is back where \<open>s\<close> is.  A rect or round_rect has the center, the width
  and the height of \<open>s\<close>; any other shape has the first point of \<open>s\<close>, and its second point
  unless it is a text, whose second point is its anchor.  Control points, label anchor and
  point list are those of \<open>s\<close>.  The rotation of a box-based shape and the sweep angles of
  an arc are those of \<open>s\<close>, an absent one counting as 0.
\<close>

definition backAt :: "Shape \<Rightarrow> Shape \<Rightarrow> bool" where
  "backAt s s2 \<longleftrightarrow>
     (if shape_type s = ''rect'' \<or> shape_type s = ''round_rect'' then
        near ((x1 s2 + x2 s2) / 2) ((x1 s + x2 s) / 2)
        \<and> near ((y1 s2 + y2 s2) / 2) ((y1 s + y2 s) / 2)
        \<and> x2 s2 - x1 s2 = \<bar>x2 s - x1 s\<bar> \<and> y2 s2 - y1 s2 = \<bar>y2 s - y1 s\<bar>
      else
        near (x1 s2) (x1 s) \<and> near (y1 s2) (y1 s)
        \<and> (if shape_type s = ''text'' then x2 s2 = x1 s2 \<and> y2 s2 = y1 s2
            else near (x2 s2) (x2 s) \<and> near (y2 s2) (y2 s)))
     \<and> nearOpt (cx1 s2) (cx1 s) \<and> nearOpt (cy1 s2) (cy1 s)
     \<and> nearOpt (cx2 s2) (cx2 s) \<and> nearOpt (cy2 s2) (cy2 s)
     \<and> nearOpt (textX s2) (textX s) \<and> nearOpt (textY s2) (textY s)
     \<and> nearPoints (points s2) (points s)
     \<and> (if shape_type s \<in> {''rect'', ''round_rect'', ''text'', ''circle'', ''ellipse'', ''arc''}
        then rotation s2 = Some (orZero (rotation s)) else rotation s2 = rotation s)
     \<and> (shape_type s = ''arc'' \<longrightarrow>
          startAngle s2 = Some (orZero (startAngle s)) \<and> endAngle s2 = Some (orZero (endAngle s)))
     \<and> shape_type s2 = shape_type s"

text \<open>
  The center of a shape as the transform operations read it: \<open>(x1, y1)\<close> for circle,
  ellipse, arc and text, the midpoint of the two corners otherwise.
\<close>

definition shapeCenter :: "Shape \<Rightarrow> Point" where
  "shapeCenter s =
     (if shape_type s \<in> {''circle'', ''ellipse'', ''arc'', ''text''} then (x1 s, y1 s)
      else ((x1 s + x2 s) / 2, (y1 s + y2 s) / 2))"

text \<open>The rotation of the plane about \<open>pivot\<close> by \<open>angle\<close>, counterclockwise, as a
  multiplication by a unit complex number.\<close>

definition rotateAbout :: "Point \<Rightarrow> real \<Rightarrow> Point \<Rightarrow> Point" where
  "rotateAbout pivot angle p =
     (let z = Complex (fst pivot) (snd pivot)
              + cis angle * (Complex (fst p) (snd p) - Complex (fst pivot) (snd pivot))
      in (Re z, Im z))"

text \<open>The optional point \<open>(ox', oy')\<close> is \<open>(ox, oy)\<close> rotated about \<open>pivot\<close>, an absent point
  staying absent.\<close>

definition rotatedPair ::
  "Point \<Rightarrow> real \<Rightarrow> real option \<Rightarrow> real option \<Rightarrow> real option \<Rightarrow> real option \<Rightarrow> bool" where
  "rotatedPair pivot angle ox oy ox' oy' =
     (case ox of
        None \<Rightarrow> ox' = None \<and> oy' = oy
      | Some a \<Rightarrow>
          (case oy of
             None \<Rightarrow> False
           | Some b \<Rightarrow> ox' = Some (fst (rotateAbout pivot angle (a, b)))
                        \<and> oy' = Some (snd (rotateAbout pivot angle (a, b)))))"

text \<open>The Euclidean distance of two points, as the modulus of their difference in the
  complex plane.\<close>

definition pointDistance :: "Point \<Rightarrow> Point \<Rightarrow> real" where
  "pointDistance p q = cmod (Complex (fst p) (snd p) - Complex (fst q) (snd q))"

text \<open>
  The axis-aligned bounding box \<open>(minX, maxX, minY, maxY)\<close> of a circle, which reaches one
  radius from its center in each direction, and the center of a box.
\<close>

definition circleBox :: "Shape \<Rightarrow> real \<times> real \<times> real \<times> real" where
  "circleBox s =
     (x1 s - circleRadius s, x1 s + circleRadius s, y1 s - circleRadius s, y1 s + circleRadius s)"

fun boxCenter :: "real \<times> real \<times> real \<times> real \<Rightarrow> Point" where
  "boxCenter (minX, maxX, minY, maxY) = ((minX + maxX) / 2, (minY + maxY) / 2)"

text \<open>
  The shape \<open>c\<close> is the copy of \<open>s\<close> at \<open>angle\<close> about \<open>pivot\<close>.  For a box-based shape the
  center is the center of \<open>s\<close> rotated about the pivot, the extent from the first to the
  second point is that of \<open>s\<close>, the rotation is that of \<open>s\<close> (0 when absent) plus the angle,
  control points and label anchor are those of \<open>s\<close> rotated about the center of \<open>s\<close>, and
  the point list is that of \<open>s\<close>.  For any other shape both points, the control points, the
  label anchor and every point of the point list are those of \<open>s\<close> rotated about the pivot,
  and the rotation is that of \<open>s\<close>.  Every field that is neither the id nor one of these is
  the one of \<open>s\<close>.
\<close>

definition isCopyAtAngle :: "Point \<Rightarrow> real \<Rightarrow> Shape \<Rightarrow> Shape \<Rightarrow> bool" where
  "isCopyAtAngle pivot angle s c \<longleftrightarrow>
     (if shape_type s \<in> {''rect'', ''round_rect'', ''circle'', ''ellipse'', ''arc'', ''text''} then
        shapeCenter c = rotateAbout pivot angle (shapeCenter s)
        \<and> x2 c - x1 c = x2 s - x1 s \<and> y2 c - y1 c = y2 s - y1 s
        \<and> rotation c = Some (orZero (rotation s) + angle)
        \<and> rotatedPair (shapeCenter s) angle (cx1 s) (cy1 s) (cx1 c) (cy1 c)
        \<and> rotatedPair (shapeCenter s) angle (cx2 s) (cy2 s) (cx2 c) (cy2 c)
        \<and> rotatedPair (shapeCenter s) angle (textX s) (textY s) (textX c) (textY c)
        \<and> points c = points s
      else
        (x1 c, y1 c) = rotateAbout pivot angle (x1 s, y1 s)
        \<and> (x2 c, y2 c) = rotateAbout pivot angle (x2 s, y2 s)
        \<and> rotation c = rotation s
        \<and> rotatedPair pivot angle (cx1 s) (cy1 s) (cx1 c) (cy1 c)
        \<and> rotatedPair pivot angle (cx2 s) (cy2 s) (cx2 c) (cy2 c)
        \<and> rotatedPair pivot angle (textX s) (textY s) (textX c) (textY c)
        \<and> points c = map_option (map (rotateAbout pivot angle)) (points s))
     \<and> c\<lparr>shape_id := shape_id s, x1 := x1 s, y1 := y1 s, x2 := x2 s, y2 := y2 s,
          cx1 := cx1 s, cy1 := cy1 s, cx2 := cx2 s, cy2 := cy2 s,
          textX := textX s, textY := textY s, points := points s, rotation := rotation s\<rparr> = s"

section \<open>Example data\<close>

text \<open>A plain line from \<open>(ax, ay)\<close> to \<open>(bx, by)\<close> with no optional field set, and a state
  holding a given collection, both used to run the operations on concrete inputs.\<close>

definition mkShape :: "string \<Rightarrow> string \<Rightarrow> real \<Rightarrow> real \<Rightarrow> real \<Rightarrow> real \<Rightarrow> Shape" where
  "mkShape i t ax ay bx by =
     \<lparr>shape_id = i, shape_type = t, x1 = ax, y1 = ay, x2 = bx, y2 = by,
      cx1 = None, cy1 = None, cx2 = None, cy2 = None, shape_text = None,
      textX = None, textY = None, style = solid, arrow = arrow_none, lineWidth = 2,
      fillColor = None, strokeColor = None, hatchStyle = None, points = None,
      rotation = None, startAngle = None, endAngle = None, cornerRadius = None,
      isGuide = None\<rparr>"

definition mkApp :: "Shape list \<Rightarrow> string set \<Rightarrow> App" where
  "mkApp ss sel =
     \<lparr>shapes = ss, history = [], future = [], selectedShapeIds = sel, mode = pan,
      clipboard = None, offsetDistance = 1 / 2, patternDirection = vertical,
      patternCount = 3, patternSpacing = 2, circularCount = 6, draws = 0\<rparr>"

text \<open>An id generator whose \<open>k\<close>-th draw is \<open>k + 1\<close> letters long.\<close>

definition demoRnd :: rng where
  "demoRnd k = replicate (Suc k) CHR ''n''"

text \<open>The bezier curve that the canvas builds for a drag from \<open>(0, 0)\<close> to \<open>(3, 3)\<close>: the
  control points are put at \<open>(x1 + (x2 - x1) * 0.33, y1)\<close> and \<open>(x1 + (x2 - x1) * 0.66, y2)\<close>.\<close>

definition bezierOnAxis :: Shape where
  "bezierOnAxis =
     (mkShape ''b'' ''bezier'' 0 0 3 3)
       \<lparr>cx1 := Some (99 / 100), cy1 := Some 0, cx2 := Some (198 / 100), cy2 := Some 3\<rparr>"

definition patternApp :: App where
  "patternApp = mkApp [mkShape ''a'' ''line'' 0 0 1 1, mkShape ''b'' ''rect'' 0 0 1 1] {''a''}"

text \<open>The circle of radius 1 about the origin, and a state in which it is selected next
  to a line.\<close>

definition unitCircle :: Shape where
  "unitCircle = mkShape ''c'' ''circle'' 0 0 1 0"

definition offsetApp :: App where
  "offsetApp = mkApp [unitCircle, mkShape ''l'' ''line'' 0 0 3 4] {''c'', ''l''}"

text \<open>The square with the corners \<open>(-1, -1)\<close> and \<open>(1, 1)\<close>, selected, with the circular
  count 4.\<close>

definition squareApp :: App where
  "squareApp = (mkApp [mkShape ''a'' ''rect'' (- 1) (- 1) 1 1] {''a''})\<lparr>circularCount := 4\<rparr>"

text \<open>The circle of radius 1 about the origin, selected, with the circular count 4.\<close>

definition circleApp :: App where
  "circleApp = (mkApp [unitCircle] {''c''})\<lparr>circularCount := 4\<rparr>"

section \<open>Properties of the edit history\<close>

lemma hasId_iff: "hasId ss i \<longleftrightarrow> (\<exists>s \<in> set ss. shape_id s = i)"
  by (auto simp: hasId_def find_None_iff)

text \<open>
  Claim C10.  Undo with an empty undo stack returns the state as it is: collection,
  selection and both stacks are untouched.  Redo with an empty redo stack does the same.
\<close>

theorem undo_redo_empty_noop:
  "(history st = [] \<longrightarrow> handleUndo st = st) \<and> (future st = [] \<longrightarrow> handleRedo st = st)"
  by (simp add: handleUndo_def handleRedo_def)

theorem undo_redo_empty_noop_witness:
  "history (mkApp [mkShape ''a'' ''line'' 0 0 3 4] {''a''}) = []
   \<and> handleUndo (mkApp [mkShape ''a'' ''line'' 0 0 3 4] {''a''})
       = mkApp [mkShape ''a'' ''line'' 0 0 3 4] {''a''}
   \<and> future (mkApp [mkShape ''a'' ''line'' 0 0 3 4] {''a''}) = []
   \<and> handleRedo (mkApp [mkShape ''a'' ''line'' 0 0 3 4] {''a''})
       = mkApp [mkShape ''a'' ''line'' 0 0 3 4] {''a''}"
  using undo_redo_empty_noop [of "mkApp [mkShape ''a'' ''line'' 0 0 3 4] {''a''}"]
  by (simp add: mkApp_def)

text \<open>
  Claim C7.  When undo (redo) restores a snapshot, the restored collection is the top of
  the undo (redo) stack, and the selection afterwards consists of exactly those ids that
  were selected before and belong to a shape of the restored collection; in particular
  every selected id names a restored shape and no id is added.
\<close>

theorem undo_redo_selection_pruned:
  "(history st \<noteq> [] \<longrightarrow>
      shapes (handleUndo st) = last (history st)
      \<and> selectedShapeIds (handleUndo st)
          = {i \<in> selectedShapeIds st. \<exists>s \<in> set (shapes (handleUndo st)). shape_id s = i}
      \<and> selectedShapeIds (handleUndo st) \<subseteq> shape_id ` set (shapes (handleUndo st))
      \<and> selectedShapeIds (handleUndo st) \<subseteq> selectedShapeIds st)
   \<and> (future st \<noteq> [] \<longrightarrow>
      shapes (handleRedo st) = last (future st)
      \<and> selectedShapeIds (handleRedo st)
          = {i \<in> selectedShapeIds st. \<exists>s \<in> set (shapes (handleRedo st)). shape_id s = i}
      \<and> selectedShapeIds (handleRedo st) \<subseteq> shape_id ` set (shapes (handleRedo st))
      \<and> selectedShapeIds (handleRedo st) \<subseteq> selectedShapeIds st)"
  by (auto simp: handleUndo_def handleRedo_def Let_def hasId_iff)

theorem undo_redo_selection_pruned_witness:
  "history ((mkApp [mkShape ''a'' ''line'' 0 0 3 4, mkShape ''b'' ''rect'' 0 0 1 1] {''a'', ''b''})
              \<lparr>history := [[mkShape ''a'' ''line'' 0 0 3 4]]\<rparr>) \<noteq> []
   \<and> selectedShapeIds (handleUndo
        ((mkApp [mkShape ''a'' ''line'' 0 0 3 4, mkShape ''b'' ''rect'' 0 0 1 1] {''a'', ''b''})
              \<lparr>history := [[mkShape ''a'' ''line'' 0 0 3 4]]\<rparr>)) = {''a''}
   \<and> future ((mkApp [mkShape ''a'' ''line'' 0 0 3 4] {''a'', ''b''})
              \<lparr>future := [[mkShape ''b'' ''rect'' 0 0 1 1]]\<rparr>) \<noteq> []
   \<and> selectedShapeIds (handleRedo
        ((mkApp [mkShape ''a'' ''line'' 0 0 3 4] {''a'', ''b''})
              \<lparr>future := [[mkShape ''b'' ''rect'' 0 0 1 1]]\<rparr>)) = {''b''}"
  using undo_redo_selection_pruned
    [of "(mkApp [mkShape ''a'' ''line'' 0 0 3 4, mkShape ''b'' ''rect'' 0 0 1 1] {''a'', ''b''})
              \<lparr>history := [[mkShape ''a'' ''line'' 0 0 3 4]]\<rparr>"]
    undo_redo_selection_pruned
    [of "(mkApp [mkShape ''a'' ''line'' 0 0 3 4] {''a'', ''b''})
              \<lparr>future := [[mkShape ''b'' ''rect'' 0 0 1 1]]\<rparr>"]
  by (auto simp: mkApp_def mkShape_def)

section \<open>Properties of the linear pattern\<close>

lemma linearCopies_nth:
  "linearCopies rnd dx dy s cnt i k = (cs, ids, k') \<Longrightarrow>
   length cs = nat (cnt - i) \<and> k' = k + nat (cnt - i) \<and> ids = shape_id ` set cs
   \<and> (\<forall>m < nat (cnt - i). cs ! m = linearCopy (dx * (of_int i + real m)) (dy * (of_int i + real m)) (rnd (k + m)) s)"
proof (induction rnd dx dy s cnt i k arbitrary: cs ids k' rule: linearCopies.induct)
  case (1 rnd dx dy shape cnt i k)
  show ?case
  proof (cases "i < cnt")
    case False
    with "1.prems" show ?thesis by simp
  next
    case True
    obtain cs1 ids1 k1 where r: "linearCopies rnd dx dy shape cnt (i + 1) (Suc k) = (cs1, ids1, k1)"
      by (cases "linearCopies rnd dx dy shape cnt (i + 1) (Suc k)") auto
    from "1.IH"[OF True refl r]
    have ih: "length cs1 = nat (cnt - (i + 1))" "k1 = Suc k + nat (cnt - (i + 1))" "ids1 = shape_id ` set cs1"
      "\<And>m. m < nat (cnt - (i + 1)) \<Longrightarrow> cs1 ! m = linearCopy (dx * (of_int (i + 1) + real m)) (dy * (of_int (i + 1) + real m)) (rnd (Suc k + m)) shape"
      by auto
    from "1.prems" True r
    have cs: "cs = linearCopy (dx * of_int i) (dy * of_int i) (rnd k) shape # cs1"
      and ids: "ids = insert (shape_id (linearCopy (dx * of_int i) (dy * of_int i) (rnd k) shape)) ids1"
      and k': "k' = k1"
      by (simp_all add: Let_def)
    have len: "length cs = nat (cnt - i)" using cs ih(1) True by simp
    have kk: "k' = k + nat (cnt - i)" using k' ih(2) True by simp
    have idseq: "ids = shape_id ` set cs" using cs ids ih(3) by simp
    have nth: "cs ! m = linearCopy (dx * (of_int i + real m)) (dy * (of_int i + real m)) (rnd (k + m)) shape"
      if m: "m < nat (cnt - i)" for m
    proof (cases m)
      case 0
      then show ?thesis using cs by simp
    next
      case (Suc m')
      with m True have "m' < nat (cnt - (i + 1))" by simp
      from ih(4)[OF this] show ?thesis using cs Suc by (simp add: algebra_simps)
    qed
    show ?thesis using len kk idseq nth by blast
  qed
qed


lemma linearEach_nth:
  "linearEach rnd dx dy cnt sel ss k = (new, ids, k') \<Longrightarrow> 1 \<le> cnt \<Longrightarrow>
   length new = length (filter (\<lambda>s. shape_id s \<in> sel) ss) * nat (cnt - 1)
   \<and> k' = k + length (filter (\<lambda>s. shape_id s \<in> sel) ss) * nat (cnt - 1)
   \<and> ids = shape_id ` set (filter (\<lambda>s. shape_id s \<in> sel) ss) \<union> shape_id ` set new
   \<and> (\<forall>j < length (filter (\<lambda>s. shape_id s \<in> sel) ss). \<forall>m < nat (cnt - 1).
         new ! (j * nat (cnt - 1) + m)
           = linearCopy (dx * (1 + real m)) (dy * (1 + real m)) (rnd (k + j * nat (cnt - 1) + m))
               (filter (\<lambda>s. shape_id s \<in> sel) ss ! j))"
proof (induction ss arbitrary: k new ids k')
  case Nil
  then show ?case by simp
next
  case (Cons a ss)
  let ?n = "nat (cnt - 1)"
  let ?f = "filter (\<lambda>s. shape_id s \<in> sel)"
  show ?case
  proof (cases "shape_id a \<in> sel")
    case False
    with Cons.prems have "linearEach rnd dx dy cnt sel ss k = (new, ids, k')" by simp
    from Cons.IH[OF this Cons.prems(2)] False show ?thesis by simp
  next
    case True
    obtain cs cids k1 where c: "linearCopies rnd dx dy a cnt 1 k = (cs, cids, k1)"
      by (cases "linearCopies rnd dx dy a cnt 1 k") auto
    obtain rs rids k2 where r: "linearEach rnd dx dy cnt sel ss k1 = (rs, rids, k2)"
      by (cases "linearEach rnd dx dy cnt sel ss k1") auto
    from linearCopies_nth[OF c]
    have ci: "length cs = ?n" "k1 = k + ?n" "cids = shape_id ` set cs"
      "\<And>m. m < ?n \<Longrightarrow> cs ! m = linearCopy (dx * (1 + real m)) (dy * (1 + real m)) (rnd (k + m)) a"
      by auto
    from Cons.IH[OF r Cons.prems(2)]
    have ri: "length rs = length (?f ss) * ?n" "k2 = k1 + length (?f ss) * ?n"
      "rids = shape_id ` set (?f ss) \<union> shape_id ` set rs"
      "\<And>j m. j < length (?f ss) \<Longrightarrow> m < ?n \<Longrightarrow>
         rs ! (j * ?n + m) = linearCopy (dx * (1 + real m)) (dy * (1 + real m)) (rnd (k1 + j * ?n + m)) (?f ss ! j)"
      by auto
    from Cons.prems(1) True c r
    have new: "new = cs @ rs" and ids: "ids = insert (shape_id a) (cids \<union> rids)" and k': "k' = k2"
      by simp_all
    have fa: "?f (a # ss) = a # ?f ss" using True by simp
    have p1: "length new = length (?f (a # ss)) * ?n" using new ci(1) ri(1) fa by simp
    have p2: "k' = k + length (?f (a # ss)) * ?n" using k' ci(2) ri(2) fa by simp
    have p3: "ids = shape_id ` set (?f (a # ss)) \<union> shape_id ` set new"
      using ids ci(3) ri(3) new fa by auto
    have p4: "new ! (j * ?n + m)
           = linearCopy (dx * (1 + real m)) (dy * (1 + real m)) (rnd (k + j * ?n + m)) (?f (a # ss) ! j)"
      if j: "j < length (?f (a # ss))" and m: "m < ?n" for j m
    proof (cases j)
      case 0
      then show ?thesis using new ci(1) ci(4)[OF m] m fa by (simp add: nth_append)
    next
      case (Suc j')
      with j fa have j': "j' < length (?f ss)" by simp
      have idx: "j * ?n + m = length cs + (j' * ?n + m)" using Suc ci(1) by simp
      have "new ! (j * ?n + m) = rs ! (j' * ?n + m)" unfolding idx new by (rule nth_append_length_plus)
      also have "\<dots> = linearCopy (dx * (1 + real m)) (dy * (1 + real m)) (rnd (k1 + j' * ?n + m)) (?f ss ! j')"
        by (rule ri(4)[OF j' m])
      also have "k1 + j' * ?n + m = k + j * ?n + m" using ci(2) Suc by simp
      finally show ?thesis using fa Suc by simp
    qed
    show ?thesis using p1 p2 p3 p4 by blast
  qed
qed

lemma linearCopy_isTranslateOf: "isTranslateOf tx ty s (linearCopy tx ty i s)"
  by (simp add: isTranslateOf_def linearCopy_def)


lemma stepVector_unit:
  "stepVector dir sp = (sp * fst (directionUnit dir), sp * snd (directionUnit dir))"
  by (cases dir) (simp_all add: stepVector_def directionUnit_def)

lemma linearEach_ids:
  assumes r: "linearEach rnd dx dy cnt sel ss k = (new, ids, k')" and c: "1 \<le> cnt"
  shows "map shape_id new = map rnd [k ..< k + length new]"
proof (rule nth_equalityI)
  show "length (map shape_id new) = length (map rnd [k ..< k + length new])" by simp
next
  fix p assume "p < length (map shape_id new)"
  then have p: "p < length new" by simp
  let ?n = "nat (cnt - 1)"
  let ?fs = "filter (\<lambda>s. shape_id s \<in> sel) ss"
  note L = linearEach_nth[OF r c]
  from L have len: "length new = length ?fs * ?n" by blast
  with p have npos: "0 < ?n" by (cases "?n") auto
  have j: "p div ?n < length ?fs" using p len npos by (simp add: less_mult_imp_div_less)
  have m: "p mod ?n < ?n" using npos by simp
  from L j m have "new ! (p div ?n * ?n + p mod ?n)
       = linearCopy (dx * (1 + real (p mod ?n))) (dy * (1 + real (p mod ?n)))
           (rnd (k + p div ?n * ?n + p mod ?n)) (?fs ! (p div ?n))" by blast
  then have "shape_id (new ! p) = rnd (k + p)" by (simp add: linearCopy_def add.assoc)
  then show "map shape_id new ! p = map rnd [k ..< k + length new] ! p" using p by simp
qed

text \<open>
  Claim C2.  With a non-empty selection the linear pattern does nothing when the count is
  below 2.  With a count \<open>N \<ge> 2\<close> it appends \<open>N - 1\<close> shapes per selected shape and keeps
  the collection it found as a prefix; the \<open>i\<close>-th copy (\<open>i = 1 .. N - 1\<close>) of the \<open>j\<close>-th
  selected shape is that shape translated by \<open>i\<close> times the spacing along the chosen
  direction, under the id of a draw of the generator that no other copy uses; the selection
  becomes the selected shapes together with all copies; and when the generator's draws are
  pairwise different and unused in the collection, so are the copies' ids.
\<close>

theorem linear_pattern_copies:
  "selectedShapeIds st \<noteq> {} \<Longrightarrow>
   (patternCount st < 2 \<longrightarrow> handleLinearPattern rnd st = st)
   \<and> (2 \<le> patternCount st \<longrightarrow>
        (\<exists>new.
           shapes (handleLinearPattern rnd st) = shapes st @ new
           \<and> length new = length (selectedShapes st) * nat (patternCount st - 1)
           \<and> (\<forall>j < length (selectedShapes st). \<forall>i \<in> {1 .. nat (patternCount st - 1)}.
                 isTranslateOf
                   (real i * (patternSpacing st * fst (directionUnit (patternDirection st))))
                   (real i * (patternSpacing st * snd (directionUnit (patternDirection st))))
                   (selectedShapes st ! j)
                   (new ! (j * nat (patternCount st - 1) + (i - 1)))
                 \<and> shape_id (new ! (j * nat (patternCount st - 1) + (i - 1)))
                     = rnd (draws st + j * nat (patternCount st - 1) + (i - 1)))
           \<and> selectedShapeIds (handleLinearPattern rnd st)
               = shape_id ` set (selectedShapes st) \<union> shape_id ` set new
           \<and> (distinct (map rnd [draws st ..< draws st + length new])
                \<and> rnd ` {draws st ..< draws st + length new} \<inter> shape_id ` set (shapes st) = {}
                \<longrightarrow> distinct (map shape_id new)
                    \<and> shape_id ` set new \<inter> shape_id ` set (shapes st) = {})))"
proof (intro conjI impI)
  assume "selectedShapeIds st \<noteq> {}" "patternCount st < 2"
  then show "handleLinearPattern rnd st = st" by (simp add: handleLinearPattern_def)
next
  assume sel: "selectedShapeIds st \<noteq> {}" and cnt: "2 \<le> patternCount st"
  let ?n = "nat (patternCount st - 1)"
  let ?ux = "patternSpacing st * fst (directionUnit (patternDirection st))"
  let ?uy = "patternSpacing st * snd (directionUnit (patternDirection st))"
  obtain new ids k' where
    r: "linearEach rnd ?ux ?uy (patternCount st) (selectedShapeIds st) (shapes st) (draws st) = (new, ids, k')"
    by (cases "linearEach rnd ?ux ?uy (patternCount st) (selectedShapeIds st) (shapes st) (draws st)") auto
  have c1: "1 \<le> patternCount st" using cnt by simp
  note L = linearEach_nth[OF r c1, folded selectedShapes_def]
  have sh: "shapes (handleLinearPattern rnd st) = shapes st @ new"
    and se: "selectedShapeIds (handleLinearPattern rnd st) = ids"
    using sel cnt r by (simp_all add: handleLinearPattern_def stepVector_unit saveHistory_def Let_def)
  have len: "length new = length (selectedShapes st) * ?n" using L by blast
  have idsq: "ids = shape_id ` set (selectedShapes st) \<union> shape_id ` set new" using L by blast
  have nth: "isTranslateOf (real i * ?ux) (real i * ?uy) (selectedShapes st ! j) (new ! (j * ?n + (i - 1)))
             \<and> shape_id (new ! (j * ?n + (i - 1))) = rnd (draws st + j * ?n + (i - 1))"
    if j: "j < length (selectedShapes st)" and i: "i \<in> {1 .. ?n}" for j i
  proof -
    from i have m: "i - 1 < ?n" and i1: "1 + real (i - 1) = real i" by auto
    from L j m have e: "new ! (j * ?n + (i - 1))
        = linearCopy (?ux * (1 + real (i - 1))) (?uy * (1 + real (i - 1)))
            (rnd (draws st + j * ?n + (i - 1))) (selectedShapes st ! j)" by blast
    have "new ! (j * ?n + (i - 1))
        = linearCopy (real i * ?ux) (real i * ?uy) (rnd (draws st + j * ?n + (i - 1))) (selectedShapes st ! j)"
      unfolding e i1 by (simp add: mult.commute)
    then show ?thesis using linearCopy_isTranslateOf by (simp add: linearCopy_def)
  qed
  have mapid: "map shape_id new = map rnd [draws st ..< draws st + length new]"
    by (rule linearEach_ids[OF r c1])
  have fresh: "distinct (map shape_id new) \<and> shape_id ` set new \<inter> shape_id ` set (shapes st) = {}"
    if "distinct (map rnd [draws st ..< draws st + length new])"
      and "rnd ` {draws st ..< draws st + length new} \<inter> shape_id ` set (shapes st) = {}"
  proof -
    have "shape_id ` set new = set (map shape_id new)" by simp
    also have "\<dots> = rnd ` {draws st ..< draws st + length new}" unfolding mapid by simp
    finally show ?thesis using that mapid by simp
  qed
  show "\<exists>new.
           shapes (handleLinearPattern rnd st) = shapes st @ new
           \<and> length new = length (selectedShapes st) * nat (patternCount st - 1)
           \<and> (\<forall>j < length (selectedShapes st). \<forall>i \<in> {1 .. nat (patternCount st - 1)}.
                 isTranslateOf
                   (real i * (patternSpacing st * fst (directionUnit (patternDirection st))))
                   (real i * (patternSpacing st * snd (directionUnit (patternDirection st))))
                   (selectedShapes st ! j)
                   (new ! (j * nat (patternCount st - 1) + (i - 1)))
                 \<and> shape_id (new ! (j * nat (patternCount st - 1) + (i - 1)))
                     = rnd (draws st + j * nat (patternCount st - 1) + (i - 1)))
           \<and> selectedShapeIds (handleLinearPattern rnd st)
               = shape_id ` set (selectedShapes st) \<union> shape_id ` set new
           \<and> (distinct (map rnd [draws st ..< draws st + length new])
                \<and> rnd ` {draws st ..< draws st + length new} \<inter> shape_id ` set (shapes st) = {}
                \<longrightarrow> distinct (map shape_id new)
                    \<and> shape_id ` set new \<inter> shape_id ` set (shapes st) = {})"
    using sh len nth se idsq fresh by (intro exI[of _ new]) blast
qed

theorem linear_pattern_copies_witness:
  "selectedShapeIds patternApp \<noteq> {} \<and> 2 \<le> patternCount patternApp
   \<and> length (shapes (handleLinearPattern demoRnd patternApp)) = 4
   \<and> shapes (handleLinearPattern demoRnd patternApp)
      = [mkShape ''a'' ''line'' 0 0 1 1, mkShape ''b'' ''rect'' 0 0 1 1,
         mkShape ''n'' ''line'' 0 2 1 3, mkShape ''nn'' ''line'' 0 4 1 5]
   \<and> selectedShapeIds (handleLinearPattern demoRnd patternApp) = {''a'', ''n'', ''nn''}"
proof -
  have h: "selectedShapeIds patternApp \<noteq> {}" by (simp add: patternApp_def mkApp_def)
  have c: "2 \<le> patternCount patternApp" by (simp add: patternApp_def mkApp_def)
  have s: "length (selectedShapes patternApp) = 1" "length (shapes patternApp) = 2"
    "nat (patternCount patternApp - 1) = 2"
    by (simp_all add: patternApp_def mkApp_def mkShape_def selectedShapes_def)
  note T = linear_pattern_copies[OF h, of demoRnd, THEN conjunct2, THEN mp, OF c]
  from T obtain new where
    "shapes (handleLinearPattern demoRnd patternApp) = shapes patternApp @ new"
    "length new = length (selectedShapes patternApp) * nat (patternCount patternApp - 1)"
    by (elim exE conjE) (rule that)
  then have l: "length (shapes (handleLinearPattern demoRnd patternApp)) = 4" using s by simp
  have e: "shapes (handleLinearPattern demoRnd patternApp)
      = [mkShape ''a'' ''line'' 0 0 1 1, mkShape ''b'' ''rect'' 0 0 1 1,
         mkShape ''n'' ''line'' 0 2 1 3, mkShape ''nn'' ''line'' 0 4 1 5]"
    "selectedShapeIds (handleLinearPattern demoRnd patternApp) = {''a'', ''n'', ''nn''}"
    by (simp_all add: patternApp_def mkApp_def mkShape_def handleLinearPattern_def saveHistory_def
        stepVector_def linearCopy_def demoRnd_def Let_def insert_commute)
  show ?thesis using h c l e by simp
qed

section \<open>Properties of duplicate and paste\<close>

text \<open>
  Claim C9.  Duplicate and paste are to add 2 to the X component and subtract 2 from the Y
  component of every coordinate field present, control points included.  On the bezier
  curve drawn from \<open>(0, 0)\<close> to \<open>(3, 3)\<close>, whose first control point has the Y component 0,
  both handlers move the endpoints and the other three control coordinates and leave that
  component at 0: the test \<open>if (shape.cy1)\<close> takes the value 0 for an absent field, where
  the linear pattern and the nudge test \<open>!== undefined\<close>.
\<close>

theorem duplicate_paste_zero_control_point:
  "shapes (handleDuplicate demoRnd (mkApp [bezierOnAxis] {''b''}))
     = [bezierOnAxis,
        bezierOnAxis\<lparr>shape_id := ''n'', x1 := 2, y1 := - 2, x2 := 5, y2 := 1,
                     cx1 := Some (299 / 100), cy1 := Some 0, cx2 := Some (398 / 100), cy2 := Some 1\<rparr>]
   \<and> shapes (handlePaste demoRnd ((mkApp [] {})\<lparr>clipboard := Some [bezierOnAxis]\<rparr>))
     = [bezierOnAxis\<lparr>shape_id := ''n'', x1 := 2, y1 := - 2, x2 := 5, y2 := 1,
                     cx1 := Some (299 / 100), cy1 := Some 0, cx2 := Some (398 / 100), cy2 := Some 1\<rparr>]
   \<and> cy1 bezierOnAxis = Some (y1 bezierOnAxis)"
  by (simp add: handleDuplicate_def handlePaste_def mkApp_def bezierOnAxis_def mkShape_def
      saveHistory_def offsetCopy_def addIfTruthy_def demoRnd_def Let_def)

section \<open>Properties of the offset\<close>

lemma scaled_unit_norm: "0 < r \<Longrightarrow> sqrt ((r * cos a)\<^sup>2 + (r * sin a)\<^sup>2) = (r::real)"
proof -
  assume r: "0 < r"
  have "(r * cos a)\<^sup>2 + (r * sin a)\<^sup>2 = r\<^sup>2"
    by (simp add: power_mult_distrib flip: distrib_left)
  then show ?thesis using r by simp
qed

lemma offsetShape_circle:
  assumes "shape_type s = ''circle''"
  shows "case offsetShape d i s of
           None \<Rightarrow> \<not> circleRadius s - d > 0
         | Some c \<Rightarrow> circleRadius s - d > 0
                     \<and> c = s\<lparr>shape_id := i, x2 := x2 c, y2 := y2 c\<rparr>
                     \<and> circleRadius c = circleRadius s - d"
proof (cases "circleRadius s - d > 0")
  case False
  then show ?thesis using assms by (simp add: offsetShape_def circleRadius_def Let_def)
next
  case True
  then show ?thesis using assms scaled_unit_norm[OF True]
    by (simp add: offsetShape_def circleRadius_def Let_def)
qed

lemma offsetShape_rect:
  assumes "shape_type s = ''rect'' \<or> shape_type s = ''round_rect''"
  shows "case offsetShape d i s of
           None \<Rightarrow> \<not> ((rightEdge s - d) - (leftEdge s + d) > 0 \<and> (topEdge s - d) - (bottomEdge s + d) > 0)
         | Some c \<Rightarrow> rightEdge c - leftEdge c > 0 \<and> topEdge c - bottomEdge c > 0
                     \<and> leftEdge c = leftEdge s + d \<and> rightEdge c = rightEdge s - d
                     \<and> bottomEdge c = bottomEdge s + d \<and> topEdge c = topEdge s - d
                     \<and> c = s\<lparr>shape_id := i, x1 := x1 c, y1 := y1 c, x2 := x2 c, y2 := y2 c\<rparr>"
  using assms
  by (auto simp: offsetShape_def Let_def leftEdge_def rightEdge_def bottomEdge_def topEdge_def)

lemma offsetShape_ellipse:
  assumes "shape_type s = ''ellipse''"
  shows "case offsetShape d i s of
           None \<Rightarrow> \<not> (radiusX s - d > 0 \<and> radiusY s - d > 0)
         | Some c \<Rightarrow> radiusX c > 0 \<and> radiusY c > 0
                     \<and> radiusX c = radiusX s - d \<and> radiusY c = radiusY s - d
                     \<and> c = s\<lparr>shape_id := i, x2 := x2 c, y2 := y2 c\<rparr>"
  using assms
  by (auto simp: offsetShape_def Let_def radiusX_def radiusY_def)

lemma offsetShape_other:
  assumes "shape_type s \<notin> {''rect'', ''round_rect'', ''circle'', ''ellipse''}"
  shows "offsetShape d i s = None"
  using assms by (simp add: offsetShape_def)

lemma offsetShape_type: "offsetShape d i s = Some c \<Longrightarrow> shape_type c = shape_type s"
  by (auto simp: offsetShape_def Let_def split: if_splits)

lemma offsetShape_positive: "offsetShape d i s = Some c \<Longrightarrow> positiveSize c"
proof -
  assume a: "offsetShape d i s = Some c"
  note t = offsetShape_type[OF a]
  consider "shape_type s = ''circle''" | "shape_type s = ''rect'' \<or> shape_type s = ''round_rect''"
    | "shape_type s = ''ellipse''" | "shape_type s \<notin> {''rect'', ''round_rect'', ''circle'', ''ellipse''}"
    by auto
  then show ?thesis
  proof cases
    case 1
    from offsetShape_circle[OF 1, of d i] a show ?thesis using 1 t by (simp add: positiveSize_def)
  next
    case 2
    from offsetShape_rect[OF 2, of d i] a show ?thesis using 2 t by (auto simp: positiveSize_def)
  next
    case 3
    from offsetShape_ellipse[OF 3, of d i] a show ?thesis using 3 t by (simp add: positiveSize_def)
  next
    case 4
    from offsetShape_other[OF 4, of d i] a show ?thesis by simp
  qed
qed

lemma offsetShape_id:
  "offsetShape d j s = map_option (\<lambda>c. c\<lparr>shape_id := j\<rparr>) (offsetShape d i s)"
  by (simp add: offsetShape_def Let_def)

lemma offsetEach_spec:
  "offsetEach rnd d sel ss k = (new, ids, k') \<Longrightarrow>
   map (\<lambda>c. c\<lparr>shape_id := []\<rparr>) new
     = List.map_filter (offsetShape d []) (filter (\<lambda>s. shape_id s \<in> sel) ss)
   \<and> ids = shape_id ` set new \<and> (\<forall>c \<in> set new. positiveSize c)"
proof (induction ss arbitrary: k new ids k')
  case Nil
  then show ?case by (simp add: List.map_filter_simps)
next
  case (Cons s ss)
  show ?case
  proof (cases "shape_id s \<in> sel")
    case False
    with Cons.prems have "offsetEach rnd d sel ss k = (new, ids, k')" by simp
    from Cons.IH[OF this] False show ?thesis by simp
  next
    case True
    show ?thesis
    proof (cases "offsetShape d (rnd k) s")
      case None
      with Cons.prems True have r: "offsetEach rnd d sel ss k = (new, ids, k')" by simp
      have "offsetShape d [] s = None" using None offsetShape_id[of d "[]" s "rnd k"] by simp
      with Cons.IH[OF r] True show ?thesis by (simp add: List.map_filter_simps)
    next
      case (Some c)
      obtain ns nids k2 where r: "offsetEach rnd d sel ss (Suc k) = (ns, nids, k2)"
        by (cases "offsetEach rnd d sel ss (Suc k)") auto
      from Cons.prems True Some r have n: "new = c # ns" "ids = insert (shape_id c) nids" by simp_all
      have e: "offsetShape d [] s = Some (c\<lparr>shape_id := []\<rparr>)"
        using Some offsetShape_id[of d "[]" s "rnd k"] by simp
      from Cons.IH[OF r] True n e offsetShape_positive[OF Some]
      show ?thesis by (simp add: List.map_filter_simps)
    qed
  qed
qed

text \<open>
  Claim C4.  What the offset with distance \<open>d\<close> makes of one selected shape \<open>s\<close>, and of
  the selection.  A circle yields a shape exactly when its radius less \<open>d\<close> is positive,
  and that shape is the circle with the same center and that radius.  A rect or round_rect
  yields a shape exactly when width and height after moving all four edges inward by \<open>d\<close>
  are positive, and that shape has those edges.  An ellipse yields a shape exactly when
  both radii less \<open>d\<close> are positive, and that shape has those radii.  Every other type
  yields nothing.  The operation appends to the collection, in order, what the selected
  shapes yield and nothing else, and every shape it appends has positive extent; it is a
  total function, so no run of it fails.
\<close>

theorem offset_rule:
  "(shape_type s = ''circle'' \<longrightarrow>
      (case offsetShape d i s of
         None \<Rightarrow> \<not> circleRadius s - d > 0
       | Some c \<Rightarrow> circleRadius s - d > 0
                   \<and> c = s\<lparr>shape_id := i, x2 := x2 c, y2 := y2 c\<rparr>
                   \<and> circleRadius c = circleRadius s - d))
   \<and> (shape_type s = ''rect'' \<or> shape_type s = ''round_rect'' \<longrightarrow>
      (case offsetShape d i s of
         None \<Rightarrow> \<not> ((rightEdge s - d) - (leftEdge s + d) > 0 \<and> (topEdge s - d) - (bottomEdge s + d) > 0)
       | Some c \<Rightarrow> rightEdge c - leftEdge c > 0 \<and> topEdge c - bottomEdge c > 0
                   \<and> leftEdge c = leftEdge s + d \<and> rightEdge c = rightEdge s - d
                   \<and> bottomEdge c = bottomEdge s + d \<and> topEdge c = topEdge s - d
                   \<and> c = s\<lparr>shape_id := i, x1 := x1 c, y1 := y1 c, x2 := x2 c, y2 := y2 c\<rparr>))
   \<and> (shape_type s = ''ellipse'' \<longrightarrow>
      (case offsetShape d i s of
         None \<Rightarrow> \<not> (radiusX s - d > 0 \<and> radiusY s - d > 0)
       | Some c \<Rightarrow> radiusX c > 0 \<and> radiusY c > 0
                   \<and> radiusX c = radiusX s - d \<and> radiusY c = radiusY s - d
                   \<and> c = s\<lparr>shape_id := i, x2 := x2 c, y2 := y2 c\<rparr>))
   \<and> (shape_type s \<notin> {''rect'', ''round_rect'', ''circle'', ''ellipse''} \<longrightarrow> offsetShape d i s = None)
   \<and> (selectedShapeIds st \<noteq> {} \<longrightarrow>
      (\<exists>new. shapes (handleOffset rnd st) = shapes st @ new
         \<and> map (\<lambda>c. c\<lparr>shape_id := []\<rparr>) new
             = List.map_filter (offsetShape (offsetDistance st) []) (selectedShapes st)
         \<and> (\<forall>c \<in> set new. positiveSize c)))"
proof -
  have op: "\<exists>new. shapes (handleOffset rnd st) = shapes st @ new
         \<and> map (\<lambda>c. c\<lparr>shape_id := []\<rparr>) new
             = List.map_filter (offsetShape (offsetDistance st) []) (selectedShapes st)
         \<and> (\<forall>c \<in> set new. positiveSize c)" if sel: "selectedShapeIds st \<noteq> {}"
  proof -
    obtain new ids k' where
      r: "offsetEach rnd (offsetDistance st) (selectedShapeIds st) (shapes st) (draws st) = (new, ids, k')"
      by (cases "offsetEach rnd (offsetDistance st) (selectedShapeIds st) (shapes st) (draws st)") auto
    note E = offsetEach_spec[OF r, folded selectedShapes_def]
    have "shapes (handleOffset rnd st) = shapes st @ new"
      using sel r by (simp add: handleOffset_def saveHistory_def Let_def)
    with E show ?thesis by blast
  qed
  show ?thesis
    using offsetShape_circle[of s d i] offsetShape_rect[of s d i] offsetShape_ellipse[of s d i]
      offsetShape_other[of s d i] op
    by (intro conjI impI) assumption+
qed

theorem offset_rule_witness:
  "shape_type unitCircle = ''circle''
   \<and> offsetShape 1 ''n'' unitCircle = None
   \<and> offsetShape (1 / 2) ''n'' unitCircle = Some (mkShape ''n'' ''circle'' 0 0 (1 / 2) 0)
   \<and> circleRadius (mkShape ''n'' ''circle'' 0 0 (1 / 2) 0) = circleRadius unitCircle - 1 / 2
   \<and> shape_type (mkShape ''r'' ''rect'' 4 0 0 2) = ''rect''
   \<and> offsetShape (1 / 2) ''n'' (mkShape ''r'' ''rect'' 4 0 0 2) = Some (mkShape ''n'' ''rect'' (1 / 2) (1 / 2) (7 / 2) (3 / 2))
   \<and> offsetShape 1 ''n'' (mkShape ''r'' ''rect'' 4 0 0 2) = None
   \<and> shape_type (mkShape ''e'' ''ellipse'' 0 0 (- 3) 2) = ''ellipse''
   \<and> offsetShape 1 ''n'' (mkShape ''e'' ''ellipse'' 0 0 (- 3) 2) = Some (mkShape ''n'' ''ellipse'' 0 0 (- 2) 1)
   \<and> shape_type (mkShape ''l'' ''line'' 0 0 3 4) \<notin> {''rect'', ''round_rect'', ''circle'', ''ellipse''}
   \<and> offsetShape 1 ''n'' (mkShape ''l'' ''line'' 0 0 3 4) = None
   \<and> selectedShapeIds offsetApp \<noteq> {}
   \<and> shapes (handleOffset demoRnd offsetApp)
       = [unitCircle, mkShape ''l'' ''line'' 0 0 3 4, mkShape ''n'' ''circle'' 0 0 (1 / 2) 0]"
proof -
  have t: "shape_type unitCircle = ''circle''" by (simp add: unitCircle_def mkShape_def)
  have e1: "offsetShape 1 ''n'' unitCircle = None"
    by (simp add: offsetShape_def unitCircle_def mkShape_def)
  have e2: "offsetShape (1 / 2) ''n'' unitCircle = Some (mkShape ''n'' ''circle'' 0 0 (1 / 2) 0)"
    by (simp add: offsetShape_def unitCircle_def mkShape_def atan2_def)
  from offset_rule[of unitCircle "1 / 2" "''n''" offsetApp demoRnd, THEN conjunct1, THEN mp, OF t] e2
  have r: "circleRadius (mkShape ''n'' ''circle'' 0 0 (1 / 2) 0) = circleRadius unitCircle - 1 / 2" by simp
  have tr: "shape_type (mkShape ''r'' ''rect'' 4 0 0 2) = ''rect''" by (simp add: mkShape_def)
  have e3: "offsetShape (1 / 2) ''n'' (mkShape ''r'' ''rect'' 4 0 0 2)
              = Some (mkShape ''n'' ''rect'' (1 / 2) (1 / 2) (7 / 2) (3 / 2))"
    "offsetShape 1 ''n'' (mkShape ''r'' ''rect'' 4 0 0 2) = None"
    by (simp_all add: offsetShape_def mkShape_def)
  have te: "shape_type (mkShape ''e'' ''ellipse'' 0 0 (- 3) 2) = ''ellipse''" by (simp add: mkShape_def)
  have e4: "offsetShape 1 ''n'' (mkShape ''e'' ''ellipse'' 0 0 (- 3) 2) = Some (mkShape ''n'' ''ellipse'' 0 0 (- 2) 1)"
    by (simp add: offsetShape_def mkShape_def)
  have tl: "shape_type (mkShape ''l'' ''line'' 0 0 3 4) \<notin> {''rect'', ''round_rect'', ''circle'', ''ellipse''}"
    by (simp add: mkShape_def)
  note e5 = offset_rule[of "mkShape ''l'' ''line'' 0 0 3 4" 1 "''n''" offsetApp demoRnd,
      THEN conjunct2, THEN conjunct2, THEN conjunct2, THEN conjunct1, THEN mp, OF tl]
  have h: "selectedShapeIds offsetApp \<noteq> {}" by (simp add: offsetApp_def mkApp_def)
  have e6: "shapes (handleOffset demoRnd offsetApp)
       = [unitCircle, mkShape ''l'' ''line'' 0 0 3 4, mkShape ''n'' ''circle'' 0 0 (1 / 2) 0]"
    by (simp add: handleOffset_def offsetApp_def mkApp_def saveHistory_def offsetShape_def
        unitCircle_def mkShape_def atan2_def demoRnd_def Let_def)
  show ?thesis using t e1 e2 r tr e3 te e4 tl e5 h e6 by simp
qed

section \<open>Properties of the mirror\<close>

lemma sq_sum_nonzero: "\<not> (dx = 0 \<and> dy = 0) \<Longrightarrow> dx * dx + dy * dy \<noteq> (0::real)"
  by (simp add: sum_squares_eq_zero_iff)

lemma reflectPoint_total:
  "reflectPoint lineX1 lineY1 lineX2 lineY2 px py =
     Some (if lineX2 - lineX1 = 0 \<and> lineY2 - lineY1 = 0 then (px, py)
           else (round4 (((lineX2 - lineX1) * (lineX2 - lineX1) - (lineY2 - lineY1) * (lineY2 - lineY1))
                          / ((lineX2 - lineX1) * (lineX2 - lineX1) + (lineY2 - lineY1) * (lineY2 - lineY1))
                          * (px - lineX1)
                        + 2 * (lineX2 - lineX1) * (lineY2 - lineY1)
                          / ((lineX2 - lineX1) * (lineX2 - lineX1) + (lineY2 - lineY1) * (lineY2 - lineY1))
                          * (py - lineY1) + lineX1),
                 round4 (2 * (lineX2 - lineX1) * (lineY2 - lineY1)
                          / ((lineX2 - lineX1) * (lineX2 - lineX1) + (lineY2 - lineY1) * (lineY2 - lineY1))
                          * (px - lineX1)
                        - ((lineX2 - lineX1) * (lineX2 - lineX1) - (lineY2 - lineY1) * (lineY2 - lineY1))
                          / ((lineX2 - lineX1) * (lineX2 - lineX1) + (lineY2 - lineY1) * (lineY2 - lineY1))
                          * (py - lineY1) + lineY1)))"
proof (cases "lineX2 - lineX1 = 0 \<and> lineY2 - lineY1 = 0")
  case True
  then show ?thesis by (simp add: reflectPoint_def)
next
  case False
  from sq_sum_nonzero[OF False] False show ?thesis
    by (simp add: reflectPoint_def jsDivide_def Let_def)
qed

lemma reflectPoint_ex: "\<exists>q. reflectPoint lineX1 lineY1 lineX2 lineY2 px py = Some q"
  unfolding reflectPoint_total by blast

lemma reflectPoint_degenerate: "reflectPoint lx ly lx ly px py = Some (px, py)"
  by (simp add: reflectPoint_def)

lemma reflectPair_degenerate: "\<exists>r. reflectPair lx ly lx ly ox oy = Some r"
  by (cases ox; cases oy) (simp_all add: reflectPair_def reflectPoint_degenerate)

lemma reflectPoints_total: "\<exists>qs. reflectPoints lineX1 lineY1 lineX2 lineY2 ps = Some qs"
proof (induction ps)
  case Nil
  show ?case by simp
next
  case (Cons p ps)
  obtain px py where p: "p = (px, py)" by (cases p)
  from reflectPoint_ex[of lineX1 lineY1 lineX2 lineY2 px py] obtain q
    where q: "reflectPoint lineX1 lineY1 lineX2 lineY2 px py = Some q" by blast
  from Cons obtain qs where "reflectPoints lineX1 lineY1 lineX2 lineY2 ps = Some qs" by blast
  with p q show ?case by simp
qed

lemma mirrorShape_degenerate: "\<exists>ns. mirrorShape lx ly lx ly newId s = Some ns"
proof -
  obtain t where t: "reflectPair lx ly lx ly (textX s) (textY s) = Some t"
    using reflectPair_degenerate by blast
  obtain a where a: "reflectPair lx ly lx ly (cx1 s) (cy1 s) = Some a"
    using reflectPair_degenerate by blast
  obtain b where b: "reflectPair lx ly lx ly (cx2 s) (cy2 s) = Some b"
    using reflectPair_degenerate by blast
  have p: "\<exists>pts. (case points s of None \<Rightarrow> Some None
              | Some ps \<Rightarrow> map_option Some (reflectPoints lx ly lx ly ps)) = Some pts"
  proof (cases "points s")
    case None
    then show ?thesis by simp
  next
    case (Some ps)
    from reflectPoints_total[of lx ly lx ly ps] obtain qs
      where "reflectPoints lx ly lx ly ps = Some qs" by blast
    with Some show ?thesis by simp
  qed
  then obtain pts where pts: "(case points s of None \<Rightarrow> Some None
              | Some ps \<Rightarrow> map_option Some (reflectPoints lx ly lx ly ps)) = Some pts" by blast
  show ?thesis
    using t a b pts
    by (cases t; cases a; cases b) (simp add: mirrorShape_def reflectPoint_degenerate Let_def)
qed

lemma mirrorEach_degenerate: "\<exists>r. mirrorEach rnd lx ly lx ly sel ss k = Some r"
proof (induction ss arbitrary: k)
  case Nil
  show ?case by simp
next
  case (Cons s ss)
  from mirrorShape_degenerate[of lx ly "rnd k" s] obtain ns
    where ns: "mirrorShape lx ly lx ly (rnd k) s = Some ns" by blast
  from Cons[of "Suc k"] obtain g i k' where r: "mirrorEach rnd lx ly lx ly sel ss (Suc k) = Some (g, i, k')"
    by (metis prod_cases3)
  show ?case using Cons[of k] ns r by (cases "shape_id s \<in> sel") simp_all
qed

text \<open>
  Claim C8.  Across a line whose two endpoints coincide, \<open>reflectPoint\<close> returns every
  point exactly as given, and the mirror operation completes on every shape and every
  state without a division by zero or an absent operand, the two sources of NaN in this
  model.  For any line at all \<open>reflectPoint\<close> returns a point: its divisor is zero only for
  the zero-length line, which the guard takes first.
\<close>

theorem reflect_degenerate_line:
  "reflectPoint lx ly lx ly px py = Some (px, py)
   \<and> (\<exists>ns. mirrorShape lx ly lx ly newId s = Some ns)
   \<and> (\<exists>st'. performMirror rnd lx ly lx ly st = Some st')
   \<and> (\<exists>q. reflectPoint lineX1 lineY1 lineX2 lineY2 px py = Some q)"
proof -
  obtain g i k where "mirrorEach rnd lx ly lx ly (selectedShapeIds st) (shapes st) (draws st) = Some (g, i, k)"
    using mirrorEach_degenerate by (metis prod_cases3)
  then have "\<exists>st'. performMirror rnd lx ly lx ly st = Some st'"
    by (simp add: performMirror_def Let_def)
  then show ?thesis
    using reflectPoint_degenerate mirrorShape_degenerate reflectPoint_ex by blast
qed

lemma round4_error: "\<bar>round4 v - v\<bar> \<le> 1 / 20000"
proof -
  define f :: real where "f = of_int \<lfloor>v * 10000 + 1 / 2\<rfloor>"
  have l: "f \<le> v * 10000 + 1 / 2" unfolding f_def by (rule of_int_floor_le)
  have u: "v * 10000 + 1 / 2 < f + 1" unfolding f_def by linarith
  have e: "round4 v - v = (f - v * 10000) / 10000" by (simp add: round4_def f_def field_simps)
  have "\<bar>f - v * 10000\<bar> \<le> 1 / 2" using l u by linarith
  then have "\<bar>(f - v * 10000) / 10000\<bar> \<le> 1 / 20000" by simp
  then show ?thesis unfolding e .
qed

lemma cauchy2:
  fixes a b u v :: real
  assumes ab: "a\<^sup>2 + b\<^sup>2 = 1" and u: "\<bar>u\<bar> \<le> 1 / 20000" and v: "\<bar>v\<bar> \<le> 1 / 20000"
  shows "\<bar>a * u + b * v\<bar> \<le> 3 / 40000"
proof -
  have "(a * u + b * v)\<^sup>2 + (a * v - b * u)\<^sup>2 = (a\<^sup>2 + b\<^sup>2) * (u\<^sup>2 + v\<^sup>2)"
    by (simp add: power2_eq_square algebra_simps)
  then have e: "(a * u + b * v)\<^sup>2 + (a * v - b * u)\<^sup>2 = u\<^sup>2 + v\<^sup>2" unfolding ab by simp
  have p: "0 \<le> (a * v - b * u)\<^sup>2" by (rule zero_le_power2)
  have c: "(a * u + b * v)\<^sup>2 \<le> u\<^sup>2 + v\<^sup>2" using e p by linarith
  have "\<bar>u\<bar> \<le> \<bar>1 / 20000 :: real\<bar>" using u by simp
  then have u2: "u\<^sup>2 \<le> (1 / 20000)\<^sup>2" by (simp only: abs_le_square_iff)
  have "\<bar>v\<bar> \<le> \<bar>1 / 20000 :: real\<bar>" using v by simp
  then have v2: "v\<^sup>2 \<le> (1 / 20000)\<^sup>2" by (simp only: abs_le_square_iff)
  have k: "(1 / 20000)\<^sup>2 + (1 / 20000)\<^sup>2 \<le> ((3 / 40000)\<^sup>2 :: real)" by (simp add: power2_eq_square)
  have "(a * u + b * v)\<^sup>2 \<le> (3 / 40000)\<^sup>2" using c u2 v2 k by linarith
  then have "\<bar>a * u + b * v\<bar> \<le> \<bar>3 / 40000 :: real\<bar>" by (simp only: abs_le_square_iff)
  then show ?thesis by simp
qed

lemma reflect_coeffs:
  fixes dx dy :: real
  assumes "\<not> (dx = 0 \<and> dy = 0)"
  shows "((dx * dx - dy * dy) / (dx * dx + dy * dy))\<^sup>2 + (2 * dx * dy / (dx * dx + dy * dy))\<^sup>2 = 1"
proof -
  have n: "dx * dx + dy * dy \<noteq> 0" using assms by (simp add: sum_squares_eq_zero_iff)
  have "(dx * dx - dy * dy)\<^sup>2 + (2 * dx * dy)\<^sup>2 = (dx * dx + dy * dy)\<^sup>2"
    by (simp add: power2_eq_square algebra_simps)
  then show ?thesis using n by (simp add: power_divide flip: add_divide_distrib)
qed

lemma reflect_twice_near:
  assumes nd: "\<not> (lineX2 - lineX1 = 0 \<and> lineY2 - lineY1 = 0)"
    and r1: "reflectPoint lineX1 lineY1 lineX2 lineY2 px py = Some (qx, qy)"
    and r2: "reflectPoint lineX1 lineY1 lineX2 lineY2 qx qy = Some (rx, ry)"
  shows "near rx px \<and> near ry py"
proof -
  define a where "a = ((lineX2 - lineX1) * (lineX2 - lineX1) - (lineY2 - lineY1) * (lineY2 - lineY1))
                          / ((lineX2 - lineX1) * (lineX2 - lineX1) + (lineY2 - lineY1) * (lineY2 - lineY1))"
  define b where "b = 2 * (lineX2 - lineX1) * (lineY2 - lineY1)
                          / ((lineX2 - lineX1) * (lineX2 - lineX1) + (lineY2 - lineY1) * (lineY2 - lineY1))"
  have ab: "a\<^sup>2 + b\<^sup>2 = 1" unfolding a_def b_def by (rule reflect_coeffs[OF nd])
  have n: "(lineX2 - lineX1) * (lineX2 - lineX1) + (lineY2 - lineY1) * (lineY2 - lineY1) \<noteq> 0"
    using nd by (simp add: sum_squares_eq_zero_iff)
  define tx where "tx = a * (px - lineX1) + b * (py - lineY1) + lineX1"
  define ty where "ty = b * (px - lineX1) - a * (py - lineY1) + lineY1"
  have "reflectPoint lineX1 lineY1 lineX2 lineY2 px py = Some (round4 tx, round4 ty)"
    unfolding reflectPoint_total tx_def ty_def a_def b_def by (simp only: nd if_False)
  with r1 have q: "qx = round4 tx" "qy = round4 ty" by simp_all
  define u where "u = qx - tx"
  define v where "v = qy - ty"
  have ub: "\<bar>u\<bar> \<le> 1 / 20000" "\<bar>v\<bar> \<le> 1 / 20000"
    unfolding u_def v_def q by (rule round4_error)+
  define sx where "sx = a * (qx - lineX1) + b * (qy - lineY1) + lineX1"
  define sy where "sy = b * (qx - lineX1) - a * (qy - lineY1) + lineY1"
  have "reflectPoint lineX1 lineY1 lineX2 lineY2 qx qy = Some (round4 sx, round4 sy)"
    unfolding reflectPoint_total sx_def sy_def a_def b_def by (simp only: nd if_False)
  with r2 have r: "rx = round4 sx" "ry = round4 sy" by simp_all
  have qe: "qx = tx + u" "qy = ty + v" by (simp_all add: u_def v_def)
  have "sx = (a\<^sup>2 + b\<^sup>2) * (px - lineX1) + lineX1 + (a * u + b * v)"
    unfolding sx_def qe tx_def ty_def by (simp add: power2_eq_square algebra_simps)
  then have sx: "sx = px + (a * u + b * v)" using ab by simp
  have "sy = (a\<^sup>2 + b\<^sup>2) * (py - lineY1) + lineY1 + (b * u - a * v)"
    unfolding sy_def qe tx_def ty_def by (simp add: power2_eq_square algebra_simps)
  then have sy: "sy = py + (b * u + (- a) * v)" using ab by simp
  have c1: "\<bar>a * u + b * v\<bar> \<le> 3 / 40000" by (rule cauchy2[OF ab ub])
  have ba: "b\<^sup>2 + (- a)\<^sup>2 = 1" using ab by simp
  have c2: "\<bar>b * u + (- a) * v\<bar> \<le> 3 / 40000" by (rule cauchy2[OF ba ub])
  have e1: "\<bar>rx - sx\<bar> \<le> 1 / 20000" "\<bar>ry - sy\<bar> \<le> 1 / 20000"
    unfolding r by (rule round4_error)+
  have "\<bar>rx - px\<bar> \<le> 1 / 8000" using e1(1)[unfolded sx] c1 by linarith
  moreover have "\<bar>ry - py\<bar> \<le> 1 / 8000" using e1(2)[unfolded sy] c2 by linarith
  ultimately show ?thesis unfolding near_def by simp
qed


lemma near_refl: "near v v" by (simp add: near_def)

lemma nearOpt_refl: "nearOpt v v" by (cases v) (simp_all add: nearOpt_def near_refl)

lemma nearPoints_refl: "nearPoints v v"
  by (cases v) (simp_all add: nearPoints_def near_refl list_all2_same)

lemma reflectPair_twice:
  assumes nd: "\<not> (lineX2 - lineX1 = 0 \<and> lineY2 - lineY1 = 0)" and pr: "ox \<noteq> None \<longrightarrow> oy \<noteq> None"
  shows "\<exists>u v u' v'. reflectPair lineX1 lineY1 lineX2 lineY2 ox oy = Some (u, v)
           \<and> reflectPair lineX1 lineY1 lineX2 lineY2 u v = Some (u', v')
           \<and> nearOpt u' ox \<and> nearOpt v' oy"
proof (cases ox)
  case None
  then show ?thesis by (simp add: reflectPair_def nearOpt_refl)
next
  case (Some a)
  with pr obtain b where b: "oy = Some b" by auto
  obtain qx qy where q: "reflectPoint lineX1 lineY1 lineX2 lineY2 a b = Some (qx, qy)"
    using reflectPoint_ex by (metis surj_pair)
  obtain rx ry where r: "reflectPoint lineX1 lineY1 lineX2 lineY2 qx qy = Some (rx, ry)"
    using reflectPoint_ex by (metis surj_pair)
  from reflect_twice_near[OF nd q r] have n: "near rx a" "near ry b" by simp_all
  have 1: "reflectPair lineX1 lineY1 lineX2 lineY2 ox oy = Some (Some qx, Some qy)"
    using Some b q by (simp add: reflectPair_def)
  have 2: "reflectPair lineX1 lineY1 lineX2 lineY2 (Some qx) (Some qy) = Some (Some rx, Some ry)"
    using r by (simp add: reflectPair_def)
  have 3: "nearOpt (Some rx) ox" "nearOpt (Some ry) oy" using n Some b by (simp_all add: nearOpt_def)
  show ?thesis using 1 2 3 by blast
qed

lemma reflectPoints_twice:
  assumes nd: "\<not> (lineX2 - lineX1 = 0 \<and> lineY2 - lineY1 = 0)"
  shows "\<exists>qs rs. reflectPoints lineX1 lineY1 lineX2 lineY2 ps = Some qs
           \<and> reflectPoints lineX1 lineY1 lineX2 lineY2 qs = Some rs
           \<and> list_all2 (\<lambda>q p. near (fst q) (fst p) \<and> near (snd q) (snd p)) rs ps"
proof (induction ps)
  case Nil
  show ?case by simp
next
  case (Cons p ps)
  obtain px py where p: "p = (px, py)" by (cases p)
  obtain qx qy where q: "reflectPoint lineX1 lineY1 lineX2 lineY2 px py = Some (qx, qy)"
    using reflectPoint_ex by (metis surj_pair)
  obtain rx ry where r: "reflectPoint lineX1 lineY1 lineX2 lineY2 qx qy = Some (rx, ry)"
    using reflectPoint_ex by (metis surj_pair)
  from reflect_twice_near[OF nd q r] have n: "near rx px" "near ry py" by simp_all
  from Cons obtain qs rs where i: "reflectPoints lineX1 lineY1 lineX2 lineY2 ps = Some qs"
    "reflectPoints lineX1 lineY1 lineX2 lineY2 qs = Some rs"
    "list_all2 (\<lambda>q p. near (fst q) (fst p) \<and> near (snd q) (snd p)) rs ps" by blast
  have 1: "reflectPoints lineX1 lineY1 lineX2 lineY2 (p # ps) = Some ((qx, qy) # qs)"
    using p q i(1) by simp
  have 2: "reflectPoints lineX1 lineY1 lineX2 lineY2 ((qx, qy) # qs) = Some ((rx, ry) # rs)"
    using r i(2) by simp
  have 3: "list_all2 (\<lambda>q p. near (fst q) (fst p) \<and> near (snd q) (snd p)) ((rx, ry) # rs) (p # ps)"
    using n i(3) p by simp
  show ?case using 1 2 3 by blast
qed

lemma mirror_twice_rect:
  assumes nd: "\<not> (lineX2 - lineX1 = 0 \<and> lineY2 - lineY1 = 0)"
    and pr: "pairedCoordinates s"
    and ty: "shape_type s = ''rect'' \<or> shape_type s = ''round_rect''"
  shows "\<exists>s1 s2. mirrorShape lineX1 lineY1 lineX2 lineY2 i s = Some s1
           \<and> mirrorShape lineX1 lineY1 lineX2 lineY2 j s1 = Some s2 \<and> backAt s s2"
proof -
  define A where "A = atan2 (lineY2 - lineY1) (lineX2 - lineX1)"
  define w where "w = \<bar>x2 s - x1 s\<bar>"
  define h where "h = \<bar>y2 s - y1 s\<bar>"
  obtain qx qy where q: "reflectPoint lineX1 lineY1 lineX2 lineY2 ((x1 s + x2 s) / 2) ((y1 s + y2 s) / 2) = Some (qx, qy)"
    using reflectPoint_ex by (metis surj_pair)
  obtain rx ry where r: "reflectPoint lineX1 lineY1 lineX2 lineY2 qx qy = Some (rx, ry)"
    using reflectPoint_ex by (metis surj_pair)
  from reflect_twice_near[OF nd q r]
  have n: "near rx ((x1 s + x2 s) / 2)" "near ry ((y1 s + y2 s) / 2)" by simp_all
  from pr have "textX s \<noteq> None \<longrightarrow> textY s \<noteq> None" by (simp add: pairedCoordinates_def)
  from reflectPair_twice[OF nd this] obtain t1 t2 t1' t2' where
    t: "reflectPair lineX1 lineY1 lineX2 lineY2 (textX s) (textY s) = Some (t1, t2)"
      "reflectPair lineX1 lineY1 lineX2 lineY2 t1 t2 = Some (t1', t2')"
      "nearOpt t1' (textX s)" "nearOpt t2' (textY s)" by blast
  define s1 where "s1 = s\<lparr>shape_id := i, x1 := qx - w / 2, x2 := qx + w / 2,
      y1 := qy - h / 2, y2 := qy + h / 2, rotation := Some (2 * A - orZero (rotation s)),
      textX := t1, textY := t2\<rparr>"
  define s2 where "s2 = s1\<lparr>shape_id := j, x1 := rx - w / 2, x2 := rx + w / 2,
      y1 := ry - h / 2, y2 := ry + h / 2, rotation := Some (orZero (rotation s)),
      textX := t1', textY := t2'\<rparr>"
  have m1: "mirrorShape lineX1 lineY1 lineX2 lineY2 i s = Some s1"
    using ty q t(1) by (auto simp: mirrorShape_def Let_def s1_def A_def w_def h_def)
  have f1: "shape_type s1 = shape_type s" "x1 s1 = qx - w / 2" "x2 s1 = qx + w / 2"
    "y1 s1 = qy - h / 2" "y2 s1 = qy + h / 2" "rotation s1 = Some (2 * A - orZero (rotation s))"
    "textX s1 = t1" "textY s1 = t2"
    by (simp_all add: s1_def)
  have c1: "(x1 s1 + x2 s1) / 2 = qx" "(y1 s1 + y2 s1) / 2 = qy"
    "\<bar>x2 s1 - x1 s1\<bar> = w" "\<bar>y2 s1 - y1 s1\<bar> = h"
    by (simp_all add: f1 w_def h_def)
  have m2: "mirrorShape lineX1 lineY1 lineX2 lineY2 j s1 = Some s2"
    unfolding mirrorShape_def Let_def f1(1) c1
    using ty r t(2) by (auto simp: f1 s2_def A_def orZero_def)
  have b: "backAt s s2"
    using ty n t(3,4)
    by (auto simp: backAt_def s2_def s1_def w_def h_def nearOpt_refl nearPoints_refl)
  show ?thesis using m1 m2 b by blast
qed


lemma mirror_twice_text:
  assumes nd: "\<not> (lineX2 - lineX1 = 0 \<and> lineY2 - lineY1 = 0)"
    and pr: "pairedCoordinates s"
    and ty: "shape_type s = ''text''"
  shows "\<exists>s1 s2. mirrorShape lineX1 lineY1 lineX2 lineY2 i s = Some s1
           \<and> mirrorShape lineX1 lineY1 lineX2 lineY2 j s1 = Some s2 \<and> backAt s s2"
proof -
  define A where "A = atan2 (lineY2 - lineY1) (lineX2 - lineX1)"
  obtain qx qy where q: "reflectPoint lineX1 lineY1 lineX2 lineY2 (x1 s) (y1 s) = Some (qx, qy)"
    using reflectPoint_ex by (metis surj_pair)
  obtain rx ry where r: "reflectPoint lineX1 lineY1 lineX2 lineY2 qx qy = Some (rx, ry)"
    using reflectPoint_ex by (metis surj_pair)
  from reflect_twice_near[OF nd q r] have n: "near rx (x1 s)" "near ry (y1 s)" by simp_all
  from pr have "textX s \<noteq> None \<longrightarrow> textY s \<noteq> None" by (simp add: pairedCoordinates_def)
  from reflectPair_twice[OF nd this] obtain t1 t2 t1' t2' where
    t: "reflectPair lineX1 lineY1 lineX2 lineY2 (textX s) (textY s) = Some (t1, t2)"
      "reflectPair lineX1 lineY1 lineX2 lineY2 t1 t2 = Some (t1', t2')"
      "nearOpt t1' (textX s)" "nearOpt t2' (textY s)" by blast
  define s1 where "s1 = s\<lparr>shape_id := i, x1 := qx, y1 := qy, x2 := qx, y2 := qy,
      rotation := Some (2 * A - orZero (rotation s)), textX := t1, textY := t2\<rparr>"
  define s2 where "s2 = s1\<lparr>shape_id := j, x1 := rx, y1 := ry, x2 := rx, y2 := ry,
      rotation := Some (orZero (rotation s)), textX := t1', textY := t2'\<rparr>"
  have m1: "mirrorShape lineX1 lineY1 lineX2 lineY2 i s = Some s1"
    using ty q t(1) by (simp add: mirrorShape_def Let_def s1_def A_def)
  have f1: "shape_type s1 = ''text''" "x1 s1 = qx" "y1 s1 = qy"
    "rotation s1 = Some (2 * A - orZero (rotation s))" "textX s1 = t1" "textY s1 = t2"
    by (simp_all add: s1_def ty)
  have m2: "mirrorShape lineX1 lineY1 lineX2 lineY2 j s1 = Some s2"
    unfolding mirrorShape_def Let_def f1
    using r t(2) by (simp add: s2_def A_def orZero_def)
  have b: "backAt s s2"
    using ty n t(3,4)
    by (simp add: backAt_def s2_def s1_def nearOpt_refl nearPoints_refl)
  show ?thesis using m1 m2 b by blast
qed

lemma mirror_twice_round:
  assumes nd: "\<not> (lineX2 - lineX1 = 0 \<and> lineY2 - lineY1 = 0)"
    and pr: "pairedCoordinates s"
    and ty: "shape_type s = ''circle'' \<or> shape_type s = ''ellipse'' \<or> shape_type s = ''arc''"
  shows "\<exists>s1 s2. mirrorShape lineX1 lineY1 lineX2 lineY2 i s = Some s1
           \<and> mirrorShape lineX1 lineY1 lineX2 lineY2 j s1 = Some s2 \<and> backAt s s2"
proof -
  define A where "A = atan2 (lineY2 - lineY1) (lineX2 - lineX1)"
  obtain qx qy where q: "reflectPoint lineX1 lineY1 lineX2 lineY2 (x1 s) (y1 s) = Some (qx, qy)"
    using reflectPoint_ex by (metis surj_pair)
  obtain rx ry where r: "reflectPoint lineX1 lineY1 lineX2 lineY2 qx qy = Some (rx, ry)"
    using reflectPoint_ex by (metis surj_pair)
  from reflect_twice_near[OF nd q r] have n: "near rx (x1 s)" "near ry (y1 s)" by simp_all
  obtain ux uy where u: "reflectPoint lineX1 lineY1 lineX2 lineY2 (x2 s) (y2 s) = Some (ux, uy)"
    using reflectPoint_ex by (metis surj_pair)
  obtain vx vy where v: "reflectPoint lineX1 lineY1 lineX2 lineY2 ux uy = Some (vx, vy)"
    using reflectPoint_ex by (metis surj_pair)
  from reflect_twice_near[OF nd u v] have n2: "near vx (x2 s)" "near vy (y2 s)" by simp_all
  from pr have "textX s \<noteq> None \<longrightarrow> textY s \<noteq> None" by (simp add: pairedCoordinates_def)
  from reflectPair_twice[OF nd this] obtain t1 t2 t1' t2' where
    t: "reflectPair lineX1 lineY1 lineX2 lineY2 (textX s) (textY s) = Some (t1, t2)"
      "reflectPair lineX1 lineY1 lineX2 lineY2 t1 t2 = Some (t1', t2')"
      "nearOpt t1' (textX s)" "nearOpt t2' (textY s)" by blast
  define s1 where "s1 = (if shape_type s = ''arc''
      then s\<lparr>shape_id := i, x1 := qx, y1 := qy, x2 := ux, y2 := uy,
            rotation := Some (2 * A - orZero (rotation s)),
            startAngle := Some (2 * A - orZero (endAngle s)),
            endAngle := Some (2 * A - orZero (startAngle s)), textX := t1, textY := t2\<rparr>
      else s\<lparr>shape_id := i, x1 := qx, y1 := qy, x2 := ux, y2 := uy,
            rotation := Some (2 * A - orZero (rotation s)), textX := t1, textY := t2\<rparr>)"
  define s2 where "s2 = (if shape_type s = ''arc''
      then s1\<lparr>shape_id := j, x1 := rx, y1 := ry, x2 := vx, y2 := vy,
            rotation := Some (orZero (rotation s)),
            startAngle := Some (orZero (startAngle s)),
            endAngle := Some (orZero (endAngle s)), textX := t1', textY := t2'\<rparr>
      else s1\<lparr>shape_id := j, x1 := rx, y1 := ry, x2 := vx, y2 := vy,
            rotation := Some (orZero (rotation s)), textX := t1', textY := t2'\<rparr>)"
  have m1: "mirrorShape lineX1 lineY1 lineX2 lineY2 i s = Some s1"
    using ty q u t(1) by (auto simp: mirrorShape_def Let_def s1_def A_def)
  have f1: "shape_type s1 = shape_type s" "x1 s1 = qx" "y1 s1 = qy" "x2 s1 = ux" "y2 s1 = uy"
    "rotation s1 = Some (2 * A - orZero (rotation s))" "textX s1 = t1" "textY s1 = t2"
    by (simp_all add: s1_def)
  have a1: "shape_type s = ''arc'' \<Longrightarrow> startAngle s1 = Some (2 * A - orZero (endAngle s))"
    "shape_type s = ''arc'' \<Longrightarrow> endAngle s1 = Some (2 * A - orZero (startAngle s))"
    by (simp_all add: s1_def)
  have m2: "mirrorShape lineX1 lineY1 lineX2 lineY2 j s1 = Some s2"
    unfolding mirrorShape_def Let_def f1
    using ty r v t(2) a1 by (auto simp: s2_def A_def orZero_def)
  have b: "backAt s s2"
    using ty n n2 t(3,4)
    by (auto simp: backAt_def s2_def s1_def nearOpt_refl nearPoints_refl)
  show ?thesis using m1 m2 b by blast
qed

lemma mirror_twice_points:
  assumes nd: "\<not> (lineX2 - lineX1 = 0 \<and> lineY2 - lineY1 = 0)"
    and pr: "pairedCoordinates s"
    and ty: "shape_type s \<notin> {''rect'', ''round_rect'', ''text'', ''circle'', ''ellipse'', ''arc''}"
  shows "\<exists>s1 s2. mirrorShape lineX1 lineY1 lineX2 lineY2 i s = Some s1
           \<and> mirrorShape lineX1 lineY1 lineX2 lineY2 j s1 = Some s2 \<and> backAt s s2"
proof -
  obtain qx qy where q: "reflectPoint lineX1 lineY1 lineX2 lineY2 (x1 s) (y1 s) = Some (qx, qy)"
    using reflectPoint_ex by (metis surj_pair)
  obtain rx ry where r: "reflectPoint lineX1 lineY1 lineX2 lineY2 qx qy = Some (rx, ry)"
    using reflectPoint_ex by (metis surj_pair)
  from reflect_twice_near[OF nd q r] have n: "near rx (x1 s)" "near ry (y1 s)" by simp_all
  obtain ux uy where u: "reflectPoint lineX1 lineY1 lineX2 lineY2 (x2 s) (y2 s) = Some (ux, uy)"
    using reflectPoint_ex by (metis surj_pair)
  obtain vx vy where v: "reflectPoint lineX1 lineY1 lineX2 lineY2 ux uy = Some (vx, vy)"
    using reflectPoint_ex by (metis surj_pair)
  from reflect_twice_near[OF nd u v] have n2: "near vx (x2 s)" "near vy (y2 s)" by simp_all
  from pr have "cx1 s \<noteq> None \<longrightarrow> cy1 s \<noteq> None" by (simp add: pairedCoordinates_def)
  from reflectPair_twice[OF nd this] obtain a1 a2 a1' a2' where
    a: "reflectPair lineX1 lineY1 lineX2 lineY2 (cx1 s) (cy1 s) = Some (a1, a2)"
      "reflectPair lineX1 lineY1 lineX2 lineY2 a1 a2 = Some (a1', a2')"
      "nearOpt a1' (cx1 s)" "nearOpt a2' (cy1 s)" by blast
  from pr have "cx2 s \<noteq> None \<longrightarrow> cy2 s \<noteq> None" by (simp add: pairedCoordinates_def)
  from reflectPair_twice[OF nd this] obtain b1 b2 b1' b2' where
    b: "reflectPair lineX1 lineY1 lineX2 lineY2 (cx2 s) (cy2 s) = Some (b1, b2)"
      "reflectPair lineX1 lineY1 lineX2 lineY2 b1 b2 = Some (b1', b2')"
      "nearOpt b1' (cx2 s)" "nearOpt b2' (cy2 s)" by blast
  have "\<exists>p1 p2. (case points s of None \<Rightarrow> Some None
              | Some ps \<Rightarrow> map_option Some (reflectPoints lineX1 lineY1 lineX2 lineY2 ps)) = Some p1
          \<and> (case p1 of None \<Rightarrow> Some None
              | Some ps \<Rightarrow> map_option Some (reflectPoints lineX1 lineY1 lineX2 lineY2 ps)) = Some p2
          \<and> nearPoints p2 (points s)"
  proof (cases "points s")
    case None
    then show ?thesis by (simp add: nearPoints_def)
  next
    case (Some ps)
    from reflectPoints_twice[OF nd, of ps] obtain qs rs where
      "reflectPoints lineX1 lineY1 lineX2 lineY2 ps = Some qs"
      "reflectPoints lineX1 lineY1 lineX2 lineY2 qs = Some rs"
      "list_all2 (\<lambda>q p. near (fst q) (fst p) \<and> near (snd q) (snd p)) rs ps" by blast
    with Some show ?thesis by (simp add: nearPoints_def)
  qed
  then obtain p1 p2 where
    p: "(case points s of None \<Rightarrow> Some None
              | Some ps \<Rightarrow> map_option Some (reflectPoints lineX1 lineY1 lineX2 lineY2 ps)) = Some p1"
      "(case p1 of None \<Rightarrow> Some None
              | Some ps \<Rightarrow> map_option Some (reflectPoints lineX1 lineY1 lineX2 lineY2 ps)) = Some p2"
      "nearPoints p2 (points s)" by blast
  define s1 where "s1 = s\<lparr>shape_id := i, x1 := qx, y1 := qy, x2 := ux, y2 := uy,
      cx1 := a1, cy1 := a2, cx2 := b1, cy2 := b2, points := p1\<rparr>"
  define s2 where "s2 = s1\<lparr>shape_id := j, x1 := rx, y1 := ry, x2 := vx, y2 := vy,
      cx1 := a1', cy1 := a2', cx2 := b1', cy2 := b2', points := p2\<rparr>"
  have m1: "mirrorShape lineX1 lineY1 lineX2 lineY2 i s = Some s1"
    unfolding mirrorShape_def Let_def q u a(1) b(1) p(1)
    using ty by (simp add: s1_def)
  have f1: "shape_type s1 = shape_type s" "x1 s1 = qx" "y1 s1 = qy" "x2 s1 = ux" "y2 s1 = uy"
    "cx1 s1 = a1" "cy1 s1 = a2" "cx2 s1 = b1" "cy2 s1 = b2" "points s1 = p1"
    by (simp_all add: s1_def)
  have m2: "mirrorShape lineX1 lineY1 lineX2 lineY2 j s1 = Some s2"
    unfolding mirrorShape_def Let_def f1 r v a(2) b(2) p(2)
    using ty by (simp add: s2_def)
  have bk: "backAt s s2"
    using ty n n2 a(3,4) b(3,4) p(3)
    by (simp add: backAt_def s2_def s1_def nearOpt_refl)
  show ?thesis using m1 m2 bk by blast
qed

text \<open>
  Claim C5, as the code has it.  Across a line of non-zero length, and for a shape whose
  optional coordinates come in pairs, the mirror operation applied twice completes and
  brings the shape back: each coordinate of a point-based shape, and of the center and
  rim point of a circle, ellipse or arc, and the anchor of a text, to within \<open>1.25e-4\<close> of
  where it was (each reflection rounds to 4 decimal places, and the second one reflects
  the rounding error of the first); a rect or round_rect to the same center within that
  bound and the same width and height, its corners stored in ascending order; the
  rotation of a box-based shape and the sweep angles of an arc to their former values, an
  absent one counting as 0.
\<close>

theorem mirror_twice_returns:
  "lineX1 \<noteq> lineX2 \<or> lineY1 \<noteq> lineY2 \<Longrightarrow> pairedCoordinates s \<Longrightarrow>
   \<exists>s1 s2. mirrorShape lineX1 lineY1 lineX2 lineY2 i s = Some s1
     \<and> mirrorShape lineX1 lineY1 lineX2 lineY2 j s1 = Some s2
     \<and> backAt s s2"
proof -
  assume l: "lineX1 \<noteq> lineX2 \<or> lineY1 \<noteq> lineY2" and pr: "pairedCoordinates s"
  from l have nd: "\<not> (lineX2 - lineX1 = 0 \<and> lineY2 - lineY1 = 0)" by auto
  consider "shape_type s = ''rect'' \<or> shape_type s = ''round_rect''"
    | "shape_type s = ''text''"
    | "shape_type s = ''circle'' \<or> shape_type s = ''ellipse'' \<or> shape_type s = ''arc''"
    | "shape_type s \<notin> {''rect'', ''round_rect'', ''text'', ''circle'', ''ellipse'', ''arc''}"
    by auto
  then show ?thesis
  proof cases
    case 1
    then show ?thesis by (rule mirror_twice_rect[OF nd pr])
  next
    case 2
    then show ?thesis by (rule mirror_twice_text[OF nd pr])
  next
    case 3
    then show ?thesis by (rule mirror_twice_round[OF nd pr])
  next
    case 4
    then show ?thesis by (rule mirror_twice_points[OF nd pr])
  qed
qed

text \<open>
  Claim C5, as stated, fails on two inputs.  The line from \<open>(0, 0.00021)\<close> to \<open>(1, 1)\<close>
  mirrored twice across the line through \<open>(0, 0)\<close> and \<open>(12, 5)\<close> starts at
  \<open>(0, 0.0001)\<close>, which is \<open>1.1e-4\<close> away.  The rect with the corners \<open>(2, 0)\<close> and
  \<open>(0, 2)\<close> mirrored twice across the Y axis has the corners \<open>(0, 0)\<close> and \<open>(2, 2)\<close>: the
  same rectangle with \<open>x1\<close> moved by 2.
\<close>

theorem mirror_twice_counterexample:
  "mirrorShape 0 0 12 5 ''n'' (mkShape ''a'' ''line'' 0 (21 / 100000) 1 1)
     = Some (mkShape ''n'' ''line'' (1 / 10000) (- 1 / 10000) (14142 / 10000) (59 / 10000))
   \<and> mirrorShape 0 0 12 5 ''m'' (mkShape ''n'' ''line'' (1 / 10000) (- 1 / 10000) (14142 / 10000) (59 / 10000))
     = Some (mkShape ''m'' ''line'' 0 (1 / 10000) 1 1)
   \<and> \<not> \<bar>y1 (mkShape ''m'' ''line'' 0 (1 / 10000) 1 1) - y1 (mkShape ''a'' ''line'' 0 (21 / 100000) 1 1)\<bar>
         \<le> 1 / 10000
   \<and> mirrorShape 0 0 0 1 ''n'' (mkShape ''r'' ''rect'' 2 0 0 2)
     = Some ((mkShape ''n'' ''rect'' (- 2) 0 0 2)\<lparr>rotation := Some pi\<rparr>)
   \<and> mirrorShape 0 0 0 1 ''m'' ((mkShape ''n'' ''rect'' (- 2) 0 0 2)\<lparr>rotation := Some pi\<rparr>)
     = Some ((mkShape ''m'' ''rect'' 0 0 2 2)\<lparr>rotation := Some 0\<rparr>)
   \<and> \<not> \<bar>x1 ((mkShape ''m'' ''rect'' 0 0 2 2)\<lparr>rotation := Some 0\<rparr>) - x1 (mkShape ''r'' ''rect'' 2 0 0 2)\<bar>
         \<le> 1 / 10000"
  by (simp add: mirrorShape_def reflectPoint_def reflectPair_def jsDivide_def round4_def
      mkShape_def atan2_def orZero_def Let_def)


theorem mirror_twice_returns_witness:
  "mirrorShape 0 0 12 5 ''n'' (mkShape ''a'' ''line'' 0 (21 / 100000) 1 1)
     = Some (mkShape ''n'' ''line'' (1 / 10000) (- 1 / 10000) (14142 / 10000) (59 / 10000))
   \<and> mirrorShape 0 0 12 5 ''m'' (mkShape ''n'' ''line'' (1 / 10000) (- 1 / 10000) (14142 / 10000) (59 / 10000))
     = Some (mkShape ''m'' ''line'' 0 (1 / 10000) 1 1)
   \<and> near (x1 (mkShape ''m'' ''line'' 0 (1 / 10000) 1 1)) (x1 (mkShape ''a'' ''line'' 0 (21 / 100000) 1 1))
   \<and> near (y1 (mkShape ''m'' ''line'' 0 (1 / 10000) 1 1)) (y1 (mkShape ''a'' ''line'' 0 (21 / 100000) 1 1))
   \<and> near (x2 (mkShape ''m'' ''line'' 0 (1 / 10000) 1 1)) (x2 (mkShape ''a'' ''line'' 0 (21 / 100000) 1 1))
   \<and> near (y2 (mkShape ''m'' ''line'' 0 (1 / 10000) 1 1)) (y2 (mkShape ''a'' ''line'' 0 (21 / 100000) 1 1))"
proof -
  have h1: "(0::real) \<noteq> 12 \<or> (0::real) \<noteq> 5" by simp
  have h2: "pairedCoordinates (mkShape ''a'' ''line'' 0 (21 / 100000) 1 1)"
    by (simp add: pairedCoordinates_def mkShape_def)
  have e1: "mirrorShape 0 0 12 5 ''n'' (mkShape ''a'' ''line'' 0 (21 / 100000) 1 1)
     = Some (mkShape ''n'' ''line'' (1 / 10000) (- 1 / 10000) (14142 / 10000) (59 / 10000))"
    by (simp add: mirrorShape_def reflectPoint_def reflectPair_def jsDivide_def round4_def
        mkShape_def Let_def)
  have e2: "mirrorShape 0 0 12 5 ''m'' (mkShape ''n'' ''line'' (1 / 10000) (- 1 / 10000) (14142 / 10000) (59 / 10000))
     = Some (mkShape ''m'' ''line'' 0 (1 / 10000) 1 1)"
    by (simp add: mirrorShape_def reflectPoint_def reflectPair_def jsDivide_def round4_def
        mkShape_def Let_def)
  from mirror_twice_returns[OF h1 h2, of "''n''" "''m''"] obtain s1 s2 where
    m: "mirrorShape 0 0 12 5 ''n'' (mkShape ''a'' ''line'' 0 (21 / 100000) 1 1) = Some s1"
      "mirrorShape 0 0 12 5 ''m'' s1 = Some s2"
      "backAt (mkShape ''a'' ''line'' 0 (21 / 100000) 1 1) s2" by blast
  from m(1) e1 have "s1 = mkShape ''n'' ''line'' (1 / 10000) (- 1 / 10000) (14142 / 10000) (59 / 10000)"
    by simp
  with m(2) e2 have "s2 = mkShape ''m'' ''line'' 0 (1 / 10000) 1 1" by simp
  with m(3) have b: "backAt (mkShape ''a'' ''line'' 0 (21 / 100000) 1 1) (mkShape ''m'' ''line'' 0 (1 / 10000) 1 1)"
    by simp
  have t: "shape_type (mkShape ''a'' ''line'' 0 (21 / 100000) 1 1) = ''line''" by (simp add: mkShape_def)
  from b have n: "near (x1 (mkShape ''m'' ''line'' 0 (1 / 10000) 1 1)) (x1 (mkShape ''a'' ''line'' 0 (21 / 100000) 1 1))"
    "near (y1 (mkShape ''m'' ''line'' 0 (1 / 10000) 1 1)) (y1 (mkShape ''a'' ''line'' 0 (21 / 100000) 1 1))"
    "near (x2 (mkShape ''m'' ''line'' 0 (1 / 10000) 1 1)) (x2 (mkShape ''a'' ''line'' 0 (21 / 100000) 1 1))"
    "near (y2 (mkShape ''m'' ''line'' 0 (1 / 10000) 1 1)) (y2 (mkShape ''a'' ''line'' 0 (21 / 100000) 1 1))"
    unfolding backAt_def t by simp_all
  show ?thesis using e1 e2 n by simp
qed

section \<open>Properties of the circular pattern\<close>

lemma rotatePoint_rotateAbout:
  "rotatePoint px py pivotX pivotY angle = rotateAbout (pivotX, pivotY) angle (px, py)"
  by (simp add: rotatePoint_def rotateAbout_def Let_def algebra_simps)

lemma rotatePair_total:
  "ox \<noteq> None \<longrightarrow> oy \<noteq> None \<Longrightarrow>
   \<exists>u v. rotatePair pivotX pivotY angle ox oy = Some (u, v)
     \<and> rotatedPair (pivotX, pivotY) angle ox oy u v"
  by (cases ox; cases oy)
     (auto simp: rotatePair_def rotatedPair_def rotatePoint_rotateAbout Let_def)

lemma circularCopy_box:
  assumes ty: "shape_type s \<in> {''rect'', ''round_rect'', ''circle'', ''ellipse'', ''arc'', ''text''}"
    and pr: "pairedCoordinates s"
  shows "\<exists>c. circularCopy cx cy angle newId s = Some c
     \<and> shapeCenter c = rotateAbout (cx, cy) angle (shapeCenter s)
     \<and> x2 c - x1 c = x2 s - x1 s \<and> y2 c - y1 c = y2 s - y1 s
     \<and> circleRadius c = circleRadius s
     \<and> rotation c = Some (orZero (rotation s) + angle)
     \<and> rotatedPair (shapeCenter s) angle (cx1 s) (cy1 s) (cx1 c) (cy1 c)
     \<and> rotatedPair (shapeCenter s) angle (cx2 s) (cy2 s) (cx2 c) (cy2 c)
     \<and> rotatedPair (shapeCenter s) angle (textX s) (textY s) (textX c) (textY c)
     \<and> shape_type c = shape_type s \<and> shape_id c = newId"
proof -
  obtain mx my where mid: "shapeCenter s = (mx, my)" by (cases "shapeCenter s")
  obtain nx ny where rc: "rotatePoint mx my cx cy angle = (nx, ny)" by (cases "rotatePoint mx my cx cy angle")
  from pr have p: "cx1 s \<noteq> None \<longrightarrow> cy1 s \<noteq> None" "cx2 s \<noteq> None \<longrightarrow> cy2 s \<noteq> None"
    "textX s \<noteq> None \<longrightarrow> textY s \<noteq> None" by (simp_all add: pairedCoordinates_def)
  from rotatePair_total[OF p(1), of mx my angle] obtain a1 a2 where
    a: "rotatePair mx my angle (cx1 s) (cy1 s) = Some (a1, a2)"
       "rotatedPair (mx, my) angle (cx1 s) (cy1 s) a1 a2" by blast
  from rotatePair_total[OF p(2), of mx my angle] obtain b1 b2 where
    b: "rotatePair mx my angle (cx2 s) (cy2 s) = Some (b1, b2)"
       "rotatedPair (mx, my) angle (cx2 s) (cy2 s) b1 b2" by blast
  from rotatePair_total[OF p(3), of mx my angle] obtain t1 t2 where
    t: "rotatePair mx my angle (textX s) (textY s) = Some (t1, t2)"
       "rotatedPair (mx, my) angle (textX s) (textY s) t1 t2" by blast
  define c where "c = (if shape_type s \<in> {''circle'', ''ellipse'', ''arc'', ''text''}
     then s\<lparr>shape_id := newId, x1 := nx, y1 := ny, x2 := nx + (x2 s - x1 s), y2 := ny + (y2 s - y1 s),
           cx1 := a1, cy1 := a2, cx2 := b1, cy2 := b2, textX := t1, textY := t2,
           rotation := Some (orZero (rotation s) + angle)\<rparr>
     else s\<lparr>shape_id := newId, x1 := nx - (x2 s - x1 s) / 2, y1 := ny - (y2 s - y1 s) / 2,
           x2 := nx + (x2 s - x1 s) / 2, y2 := ny + (y2 s - y1 s) / 2,
           cx1 := a1, cy1 := a2, cx2 := b1, cy2 := b2, textX := t1, textY := t2,
           rotation := Some (orZero (rotation s) + angle)\<rparr>)"
  have m: "circularCopy cx cy angle newId s = Some c"
    using ty mid rc a(1) b(1) t(1)
    by (auto simp: circularCopy_def Let_def c_def shapeCenter_def)
  have f: "shape_type c = shape_type s" "shape_id c = newId" "cx1 c = a1" "cy1 c = a2"
    "cx2 c = b1" "cy2 c = b2" "textX c = t1" "textY c = t2"
    "rotation c = Some (orZero (rotation s) + angle)"
    "x2 c - x1 c = x2 s - x1 s" "y2 c - y1 c = y2 s - y1 s"
    by (simp_all add: c_def)
  have ctr: "shapeCenter c = (nx, ny)" by (simp add: shapeCenter_def c_def)
  have rad: "circleRadius c = circleRadius s" by (simp add: circleRadius_def f)
  show ?thesis
    using m f ctr rad a(2) b(2) t(2) rc mid
    by (simp add: rotatePoint_rotateAbout)
qed


lemma circularCopy_total:
  assumes pr: "pairedCoordinates s"
  shows "\<exists>c. circularCopy cx cy angle newId s = Some c \<and> shape_id c = newId"
proof (cases "shape_type s \<in> {''rect'', ''round_rect'', ''circle'', ''ellipse'', ''arc'', ''text''}")
  case True
  from circularCopy_box[OF True pr, of cx cy angle newId] show ?thesis by blast
next
  case False
  from pr have p: "cx1 s \<noteq> None \<longrightarrow> cy1 s \<noteq> None" "cx2 s \<noteq> None \<longrightarrow> cy2 s \<noteq> None"
    "textX s \<noteq> None \<longrightarrow> textY s \<noteq> None" by (simp_all add: pairedCoordinates_def)
  from rotatePair_total[OF p(1), of cx cy angle] obtain a1 a2 where
    a: "rotatePair cx cy angle (cx1 s) (cy1 s) = Some (a1, a2)" by blast
  from rotatePair_total[OF p(2), of cx cy angle] obtain b1 b2 where
    b: "rotatePair cx cy angle (cx2 s) (cy2 s) = Some (b1, b2)" by blast
  from rotatePair_total[OF p(3), of cx cy angle] obtain t1 t2 where
    t: "rotatePair cx cy angle (textX s) (textY s) = Some (t1, t2)" by blast
  show ?thesis using False a b t by (simp add: circularCopy_def Let_def)
qed

lemma circularCopies_total:
  "pairedCoordinates s \<Longrightarrow> \<exists>r. circularCopies rnd cx cy angleStep s cnt i k = Some r"
proof (induction rnd cx cy angleStep s cnt i k rule: circularCopies.induct)
  case (1 rnd cx cy angleStep s cnt i k)
  show ?case
  proof (cases "i < cnt")
    case False
    then show ?thesis by (simp add: circularCopies.simps[of rnd cx cy angleStep s cnt i k])
  next
    case True
    from circularCopy_total[OF "1.prems", of cx cy "of_int i * angleStep" "rnd k"] obtain c
      where c: "circularCopy cx cy (of_int i * angleStep) (rnd k) s = Some c" by blast
    from "1.IH"[OF True refl c "1.prems"] obtain r where
      r: "circularCopies rnd cx cy angleStep s cnt (i + 1) (Suc k) = Some r" by blast
    obtain cs ids k' where "r = (cs, ids, k')" by (cases r)
    with True c r show ?thesis
      by (simp add: circularCopies.simps[of rnd cx cy angleStep s cnt i k] Let_def)
  qed
qed

lemma circularCopies_nth:
  "circularCopies rnd cx cy angleStep s cnt i k = Some (cs, ids, k') \<Longrightarrow>
   length cs = nat (cnt - i) \<and> k' = k + nat (cnt - i) \<and> ids = shape_id ` set cs
   \<and> (\<forall>m < nat (cnt - i).
         circularCopy cx cy ((of_int i + real m) * angleStep) (rnd (k + m)) s = Some (cs ! m))"
proof (induction rnd cx cy angleStep s cnt i k arbitrary: cs ids k' rule: circularCopies.induct)
  case (1 rnd cx cy angleStep s cnt i k)
  show ?case
  proof (cases "i < cnt")
    case False
    with "1.prems" show ?thesis
      by (simp add: circularCopies.simps[of rnd cx cy angleStep s cnt i k])
  next
    case True
    note eq = circularCopies.simps[of rnd cx cy angleStep s cnt i k]
    from "1.prems" True obtain c where c: "circularCopy cx cy (of_int i * angleStep) (rnd k) s = Some c"
      unfolding eq by (cases "circularCopy cx cy (of_int i * angleStep) (rnd k) s") (simp_all add: Let_def)
    from "1.prems" True c obtain r0 where
      r0: "circularCopies rnd cx cy angleStep s cnt (i + 1) (Suc k) = Some r0"
      unfolding eq
      by (cases "circularCopies rnd cx cy angleStep s cnt (i + 1) (Suc k)") (simp_all add: Let_def)
    obtain cs1 ids1 k1 where r1: "r0 = (cs1, ids1, k1)" by (cases r0)
    note r = r0[unfolded r1]
    from "1.IH"[OF True refl c r]
    have ih: "length cs1 = nat (cnt - (i + 1))" "k1 = Suc k + nat (cnt - (i + 1))" "ids1 = shape_id ` set cs1"
      "\<And>m. m < nat (cnt - (i + 1)) \<Longrightarrow>
         circularCopy cx cy ((of_int (i + 1) + real m) * angleStep) (rnd (Suc k + m)) s = Some (cs1 ! m)"
      by auto
    from "1.prems" True c r
    have cs: "cs = c # cs1" and ids: "ids = insert (shape_id c) ids1" and k': "k' = k1"
      unfolding eq by (simp_all add: Let_def)
    have len: "length cs = nat (cnt - i)" using cs ih(1) True by simp
    have kk: "k' = k + nat (cnt - i)" using k' ih(2) True by simp
    have idseq: "ids = shape_id ` set cs" using cs ids ih(3) by simp
    have nth: "circularCopy cx cy ((of_int i + real m) * angleStep) (rnd (k + m)) s = Some (cs ! m)"
      if m: "m < nat (cnt - i)" for m
    proof (cases m)
      case 0
      then show ?thesis using cs c by simp
    next
      case (Suc m')
      with m True have "m' < nat (cnt - (i + 1))" by simp
      from ih(4)[OF this] show ?thesis using cs Suc by (simp add: algebra_simps)
    qed
    show ?thesis using len kk idseq nth by blast
  qed
qed

lemma circularEach_total:
  assumes pr: "\<forall>s \<in> set ss. pairedCoordinates s"
  shows "\<exists>r. circularEach rnd cx cy angleStep cnt ss k = Some r"
  using pr
proof (induction ss arbitrary: k)
  case Nil
  show ?case by simp
next
  case (Cons s ss)
  from Cons.prems have ps: "pairedCoordinates s" by simp
  from circularCopies_total[OF ps, of rnd cx cy angleStep cnt 1 k] obtain r1 where
    c0: "circularCopies rnd cx cy angleStep s cnt 1 k = Some r1" by blast
  obtain cs ids k1 where r1: "r1 = (cs, ids, k1)" by (cases r1)
  from Cons.prems have "\<forall>s \<in> set ss. pairedCoordinates s" by simp
  from Cons.IH[OF this, of k1] obtain r2 where
    c2: "circularEach rnd cx cy angleStep cnt ss k1 = Some r2" by blast
  obtain ns nids k2 where r2: "r2 = (ns, nids, k2)" by (cases r2)
  from c0 r1 c2 r2 show ?case by simp
qed

lemma circularEach_nth:
  "circularEach rnd cx cy angleStep cnt ss k = Some (new, ids, k') \<Longrightarrow> 1 \<le> cnt \<Longrightarrow>
   length new = length ss * nat (cnt - 1)
   \<and> k' = k + length ss * nat (cnt - 1)
   \<and> ids = shape_id ` set ss \<union> shape_id ` set new
   \<and> (\<forall>j < length ss. \<forall>m < nat (cnt - 1).
         circularCopy cx cy ((1 + real m) * angleStep) (rnd (k + j * nat (cnt - 1) + m)) (ss ! j)
           = Some (new ! (j * nat (cnt - 1) + m)))"
proof (induction ss arbitrary: k new ids k')
  case Nil
  then show ?case by simp
next
  case (Cons a ss)
  let ?n = "nat (cnt - 1)"
  from Cons.prems(1) obtain c0 where c0: "circularCopies rnd cx cy angleStep a cnt 1 k = Some c0"
    by (cases "circularCopies rnd cx cy angleStep a cnt 1 k") simp_all
  obtain cs cids k1 where c1: "c0 = (cs, cids, k1)" by (cases c0)
  note c = c0[unfolded c1]
  from Cons.prems(1) c obtain r0 where r0: "circularEach rnd cx cy angleStep cnt ss k1 = Some r0"
    by (cases "circularEach rnd cx cy angleStep cnt ss k1") simp_all
  obtain rs rids k2 where r1: "r0 = (rs, rids, k2)" by (cases r0)
  note r = r0[unfolded r1]
  from circularCopies_nth[OF c]
  have ci: "length cs = ?n" "k1 = k + ?n" "cids = shape_id ` set cs"
    "\<And>m. m < ?n \<Longrightarrow> circularCopy cx cy ((1 + real m) * angleStep) (rnd (k + m)) a = Some (cs ! m)"
    by auto
  from Cons.IH[OF r Cons.prems(2)]
  have ri: "length rs = length ss * ?n" "k2 = k1 + length ss * ?n"
    "rids = shape_id ` set ss \<union> shape_id ` set rs"
    "\<And>j m. j < length ss \<Longrightarrow> m < ?n \<Longrightarrow>
       circularCopy cx cy ((1 + real m) * angleStep) (rnd (k1 + j * ?n + m)) (ss ! j) = Some (rs ! (j * ?n + m))"
    by auto
  from Cons.prems(1) c r
  have new: "new = cs @ rs" and ids: "ids = insert (shape_id a) (cids \<union> rids)" and k': "k' = k2"
    by simp_all
  have p1: "length new = length (a # ss) * ?n" using new ci(1) ri(1) by simp
  have p2: "k' = k + length (a # ss) * ?n" using k' ci(2) ri(2) by simp
  have p3: "ids = shape_id ` set (a # ss) \<union> shape_id ` set new"
    using ids ci(3) ri(3) new by auto
  have p4: "circularCopy cx cy ((1 + real m) * angleStep) (rnd (k + j * ?n + m)) ((a # ss) ! j)
             = Some (new ! (j * ?n + m))"
    if j: "j < length (a # ss)" and m: "m < ?n" for j m
  proof (cases j)
    case 0
    then show ?thesis using new ci(1) ci(4)[OF m] m by (simp add: nth_append)
  next
    case (Suc j')
    with j have j': "j' < length ss" by simp
    have idx: "j * ?n + m = length cs + (j' * ?n + m)" using Suc ci(1) by simp
    have e: "new ! (j * ?n + m) = rs ! (j' * ?n + m)" unfolding idx new by (rule nth_append_length_plus)
    have kq: "k1 + j' * ?n + m = k + j * ?n + m" using ci(2) Suc by simp
    from ri(4)[OF j' m] show ?thesis unfolding e kq using Suc by simp
  qed
  show ?case using p1 p2 p3 p4 by blast
qed

lemma Min_insert_min:
  fixes a b :: real
  assumes "finite A"
  shows "Min (insert (min a b) A) = Min (insert a (insert b A))"
proof (cases "A = {}")
  case True
  then show ?thesis by simp
next
  case False
  with assms show ?thesis by (simp add: min.assoc)
qed

lemma Max_insert_max:
  fixes a b :: real
  assumes "finite A"
  shows "Max (insert (max a b) A) = Max (insert a (insert b A))"
proof (cases "A = {}")
  case True
  then show ?thesis by simp
next
  case False
  with assms show ?thesis by (simp add: max.assoc)
qed

lemma foldl_growBounds_Some:
  "foldl growBounds (Some (a, b, c, d)) ss
     = Some (Min (insert a (\<Union>s \<in> set ss. {x1 s, x2 s})), Max (insert b (\<Union>s \<in> set ss. {x1 s, x2 s})),
             Min (insert c (\<Union>s \<in> set ss. {y1 s, y2 s})), Max (insert d (\<Union>s \<in> set ss. {y1 s, y2 s})))"
proof (induction ss arbitrary: a b c d)
  case Nil
  show ?case by simp
next
  case (Cons s ss)
  have fx: "finite (\<Union>s \<in> set ss. {x1 s, x2 s})" and fy: "finite (\<Union>s \<in> set ss. {y1 s, y2 s})" by simp_all
  have fx2: "finite (insert (x2 s) (\<Union>s \<in> set ss. {x1 s, x2 s}))"
    and fy2: "finite (insert (y2 s) (\<Union>s \<in> set ss. {y1 s, y2 s}))" by simp_all
  have "foldl growBounds (Some (a, b, c, d)) (s # ss)
      = foldl growBounds (Some (min (min a (x1 s)) (x2 s), max (max b (x1 s)) (x2 s),
                                 min (min c (y1 s)) (y2 s), max (max d (y1 s)) (y2 s))) ss" by simp
  also have "\<dots> = Some (Min (insert (min (min a (x1 s)) (x2 s)) (\<Union>s \<in> set ss. {x1 s, x2 s})),
                        Max (insert (max (max b (x1 s)) (x2 s)) (\<Union>s \<in> set ss. {x1 s, x2 s})),
                        Min (insert (min (min c (y1 s)) (y2 s)) (\<Union>s \<in> set ss. {y1 s, y2 s})),
                        Max (insert (max (max d (y1 s)) (y2 s)) (\<Union>s \<in> set ss. {y1 s, y2 s})))"
    by (rule Cons.IH)
  also have "\<dots> = Some (Min (insert a (\<Union>s \<in> set (s # ss). {x1 s, x2 s})),
                        Max (insert b (\<Union>s \<in> set (s # ss). {x1 s, x2 s})),
                        Min (insert c (\<Union>s \<in> set (s # ss). {y1 s, y2 s})),
                        Max (insert d (\<Union>s \<in> set (s # ss). {y1 s, y2 s})))"
    unfolding Min_insert_min[OF fx] Min_insert_min[OF fx2] Max_insert_max[OF fx] Max_insert_max[OF fx2]
      Min_insert_min[OF fy] Min_insert_min[OF fy2] Max_insert_max[OF fy] Max_insert_max[OF fy2]
    by simp
  finally show ?case .
qed

lemma foldl_growBounds_None:
  assumes "ss \<noteq> []"
  shows "foldl growBounds None ss
     = Some (Min (\<Union>s \<in> set ss. {x1 s, x2 s}), Max (\<Union>s \<in> set ss. {x1 s, x2 s}),
             Min (\<Union>s \<in> set ss. {y1 s, y2 s}), Max (\<Union>s \<in> set ss. {y1 s, y2 s}))"
proof -
  from assms obtain s rest where ss: "ss = s # rest" by (cases ss) auto
  have fx: "finite (\<Union>s \<in> set rest. {x1 s, x2 s})" and fy: "finite (\<Union>s \<in> set rest. {y1 s, y2 s})" by simp_all
  have "foldl growBounds None ss
      = foldl growBounds (Some (min (x1 s) (x2 s), max (x1 s) (x2 s), min (y1 s) (y2 s), max (y1 s) (y2 s))) rest"
    unfolding ss by simp
  also have "\<dots> = Some (Min (insert (min (x1 s) (x2 s)) (\<Union>s \<in> set rest. {x1 s, x2 s})),
                        Max (insert (max (x1 s) (x2 s)) (\<Union>s \<in> set rest. {x1 s, x2 s})),
                        Min (insert (min (y1 s) (y2 s)) (\<Union>s \<in> set rest. {y1 s, y2 s})),
                        Max (insert (max (y1 s) (y2 s)) (\<Union>s \<in> set rest. {y1 s, y2 s})))"
    by (rule foldl_growBounds_Some)
  also have "\<dots> = Some (Min (\<Union>s \<in> set ss. {x1 s, x2 s}), Max (\<Union>s \<in> set ss. {x1 s, x2 s}),
             Min (\<Union>s \<in> set ss. {y1 s, y2 s}), Max (\<Union>s \<in> set ss. {y1 s, y2 s}))"
    unfolding Min_insert_min[OF fx] Max_insert_max[OF fx] Min_insert_min[OF fy] Max_insert_max[OF fy] ss
    by simp
  finally show ?thesis .
qed

lemma circular_pattern_run:
  assumes cnt: "2 \<le> circularCount st" and ne: "selectedShapes st \<noteq> []"
    and pr: "\<forall>s \<in> set (selectedShapes st). pairedCoordinates s"
  shows "\<exists>st' g copies.
      handleCircularPatternCenter rnd cx cy st = Some st'
      \<and> shapes st' = shapes st @ g # copies
      \<and> shape_type g = ''circle'' \<and> style g = dashed \<and> isGuide g = Some True
      \<and> x1 g = cx \<and> y1 g = cy
      \<and> circleRadius g = pointDistance (storedPointsCenter (selectedShapes st)) (cx, cy)
      \<and> length copies = length (selectedShapes st) * nat (circularCount st - 1)
      \<and> (\<forall>j < length (selectedShapes st). \<forall>m < nat (circularCount st - 1).
            circularCopy cx cy ((1 + real m) * (2 * pi / of_int (circularCount st)))
              (rnd (Suc (draws st) + j * nat (circularCount st - 1) + m)) (selectedShapes st ! j)
            = Some (copies ! (j * nat (circularCount st - 1) + m)))
      \<and> selectedShapeIds st' = shape_id ` set (selectedShapes st) \<union> shape_id ` set copies
      \<and> mode st' = pan"
proof -
  let ?sel = "selectedShapes st"
  let ?step = "2 * pi / of_int (circularCount st)"
  from ne have sne: "selectedShapeIds st \<noteq> {}" by (auto simp: selectedShapes_def)
  from circularEach_total[OF pr, of rnd cx cy ?step "circularCount st" "Suc (draws st)"] obtain r0 where
    r0: "circularEach rnd cx cy ?step (circularCount st) ?sel (Suc (draws st)) = Some r0" by blast
  obtain copies ids k where r1: "r0 = (copies, ids, k)" by (cases r0)
  note r = r0[unfolded r1]
  have c1: "1 \<le> circularCount st" using cnt by simp
  note E = circularEach_nth[OF r c1]
  note B = foldl_growBounds_None[OF ne]
  define radius where "radius = sqrt ((fst (storedPointsCenter ?sel) - cx)\<^sup>2 + (snd (storedPointsCenter ?sel) - cy)\<^sup>2)"
  define g where "g = \<lparr>shape_id = rnd (draws st), shape_type = ''circle'',
                    x1 = cx, y1 = cy, x2 = cx + radius, y2 = cy,
                    cx1 = None, cy1 = None, cx2 = None, cy2 = None, shape_text = None,
                    textX = None, textY = None, style = dashed, arrow = arrow_none,
                    lineWidth = 1, fillColor = Some ''none'', strokeColor = Some ''#94a3b8'',
                    hatchStyle = None, points = None, rotation = None, startAngle = None,
                    endAngle = None, cornerRadius = None, isGuide = Some True\<rparr>"
  define st' where "st' = (saveHistory st)\<lparr>shapes := shapes st @ (g # copies),
                           selectedShapeIds := ids, mode := pan, draws := k\<rparr>"
  have run: "handleCircularPatternCenter rnd cx cy st = Some st'"
    using sne cnt r B
    by (simp add: handleCircularPatternCenter_def Let_def st'_def g_def radius_def
        storedPointsCenter_def saveHistory_def)
  have rpos: "0 \<le> radius" by (simp add: radius_def)
  have gr: "circleRadius g = pointDistance (storedPointsCenter ?sel) (cx, cy)"
    using rpos by (simp add: circleRadius_def g_def radius_def pointDistance_def cmod_def)
  have f: "shapes st' = shapes st @ g # copies" "selectedShapeIds st' = ids" "mode st' = pan"
    by (simp_all add: st'_def)
  have gf: "shape_type g = ''circle''" "style g = dashed" "isGuide g = Some True" "x1 g = cx" "y1 g = cy"
    by (simp_all add: g_def)
  from E have e1: "length copies = length ?sel * nat (circularCount st - 1)"
    and e3: "ids = shape_id ` set ?sel \<union> shape_id ` set copies"
    and e4: "\<forall>j < length ?sel. \<forall>m < nat (circularCount st - 1).
            circularCopy cx cy ((1 + real m) * ?step)
              (rnd (Suc (draws st) + j * nat (circularCount st - 1) + m)) (?sel ! j)
            = Some (copies ! (j * nat (circularCount st - 1) + m))"
    by blast+
  show ?thesis
    using run f gf gr e1 e3 e4 by (intro exI[of _ st'] exI[of _ g] exI[of _ copies]) simp
qed

lemma rotatePoint_pair_map:
  "(\<lambda>(px, py). rotatePoint px py cx cy angle) = rotateAbout (cx, cy) angle"
  by (auto simp: fun_eq_iff rotatePoint_rotateAbout)

lemma circularCopy_spec:
  assumes pr: "pairedCoordinates s"
  shows "\<exists>c. circularCopy cx cy angle newId s = Some c
     \<and> isCopyAtAngle (cx, cy) angle s c \<and> shape_id c = newId"
proof (cases "shape_type s \<in> {''rect'', ''round_rect'', ''circle'', ''ellipse'', ''arc'', ''text''}")
  case True
  obtain mx my where mid: "shapeCenter s = (mx, my)" by (cases "shapeCenter s")
  obtain nx ny where rc: "rotatePoint mx my cx cy angle = (nx, ny)" by (cases "rotatePoint mx my cx cy angle")
  from pr have p: "cx1 s \<noteq> None \<longrightarrow> cy1 s \<noteq> None" "cx2 s \<noteq> None \<longrightarrow> cy2 s \<noteq> None"
    "textX s \<noteq> None \<longrightarrow> textY s \<noteq> None" by (simp_all add: pairedCoordinates_def)
  from rotatePair_total[OF p(1), of mx my angle] obtain a1 a2 where
    a: "rotatePair mx my angle (cx1 s) (cy1 s) = Some (a1, a2)"
       "rotatedPair (mx, my) angle (cx1 s) (cy1 s) a1 a2" by blast
  from rotatePair_total[OF p(2), of mx my angle] obtain b1 b2 where
    b: "rotatePair mx my angle (cx2 s) (cy2 s) = Some (b1, b2)"
       "rotatedPair (mx, my) angle (cx2 s) (cy2 s) b1 b2" by blast
  from rotatePair_total[OF p(3), of mx my angle] obtain t1 t2 where
    t: "rotatePair mx my angle (textX s) (textY s) = Some (t1, t2)"
       "rotatedPair (mx, my) angle (textX s) (textY s) t1 t2" by blast
  define c where "c = (if shape_type s \<in> {''circle'', ''ellipse'', ''arc'', ''text''}
     then s\<lparr>shape_id := newId, x1 := nx, y1 := ny, x2 := nx + (x2 s - x1 s), y2 := ny + (y2 s - y1 s),
           cx1 := a1, cy1 := a2, cx2 := b1, cy2 := b2, textX := t1, textY := t2,
           rotation := Some (orZero (rotation s) + angle)\<rparr>
     else s\<lparr>shape_id := newId, x1 := nx - (x2 s - x1 s) / 2, y1 := ny - (y2 s - y1 s) / 2,
           x2 := nx + (x2 s - x1 s) / 2, y2 := ny + (y2 s - y1 s) / 2,
           cx1 := a1, cy1 := a2, cx2 := b1, cy2 := b2, textX := t1, textY := t2,
           rotation := Some (orZero (rotation s) + angle)\<rparr>)"
  have m: "circularCopy cx cy angle newId s = Some c"
    using True mid rc a(1) b(1) t(1)
    by (auto simp: circularCopy_def Let_def c_def shapeCenter_def)
  have f: "shape_id c = newId" "cx1 c = a1" "cy1 c = a2"
    "cx2 c = b1" "cy2 c = b2" "textX c = t1" "textY c = t2"
    "rotation c = Some (orZero (rotation s) + angle)"
    "x2 c - x1 c = x2 s - x1 s" "y2 c - y1 c = y2 s - y1 s" "points c = points s"
    by (simp_all add: c_def)
  have ctr: "shapeCenter c = (nx, ny)" by (simp add: shapeCenter_def c_def)
  have rest: "c\<lparr>shape_id := shape_id s, x1 := x1 s, y1 := y1 s, x2 := x2 s, y2 := y2 s,
          cx1 := cx1 s, cy1 := cy1 s, cx2 := cx2 s, cy2 := cy2 s,
          textX := textX s, textY := textY s, points := points s, rotation := rotation s\<rparr> = s"
    by (simp add: c_def)
  have "isCopyAtAngle (cx, cy) angle s c"
    unfolding isCopyAtAngle_def
    using True f ctr rest a(2) b(2) t(2) rc mid by (simp add: rotatePoint_rotateAbout)
  with m f(1) show ?thesis by blast
next
  case False
  obtain p1x p1y where p1: "rotatePoint (x1 s) (y1 s) cx cy angle = (p1x, p1y)"
    by (cases "rotatePoint (x1 s) (y1 s) cx cy angle")
  obtain p2x p2y where p2: "rotatePoint (x2 s) (y2 s) cx cy angle = (p2x, p2y)"
    by (cases "rotatePoint (x2 s) (y2 s) cx cy angle")
  from pr have p: "cx1 s \<noteq> None \<longrightarrow> cy1 s \<noteq> None" "cx2 s \<noteq> None \<longrightarrow> cy2 s \<noteq> None"
    "textX s \<noteq> None \<longrightarrow> textY s \<noteq> None" by (simp_all add: pairedCoordinates_def)
  from rotatePair_total[OF p(1), of cx cy angle] obtain a1 a2 where
    a: "rotatePair cx cy angle (cx1 s) (cy1 s) = Some (a1, a2)"
       "rotatedPair (cx, cy) angle (cx1 s) (cy1 s) a1 a2" by blast
  from rotatePair_total[OF p(2), of cx cy angle] obtain b1 b2 where
    b: "rotatePair cx cy angle (cx2 s) (cy2 s) = Some (b1, b2)"
       "rotatedPair (cx, cy) angle (cx2 s) (cy2 s) b1 b2" by blast
  from rotatePair_total[OF p(3), of cx cy angle] obtain t1 t2 where
    t: "rotatePair cx cy angle (textX s) (textY s) = Some (t1, t2)"
       "rotatedPair (cx, cy) angle (textX s) (textY s) t1 t2" by blast
  define c where "c = s\<lparr>shape_id := newId, x1 := p1x, y1 := p1y, x2 := p2x, y2 := p2y,
       cx1 := a1, cy1 := a2, cx2 := b1, cy2 := b2, textX := t1, textY := t2,
       points := map_option (map (rotateAbout (cx, cy) angle)) (points s)\<rparr>"
  have m: "circularCopy cx cy angle newId s = Some c"
    using False p1 p2 a(1) b(1) t(1)
    by (simp add: circularCopy_def Let_def c_def rotatePoint_pair_map)
  have f: "shape_id c = newId" "x1 c = p1x" "y1 c = p1y" "x2 c = p2x" "y2 c = p2y"
    "cx1 c = a1" "cy1 c = a2" "cx2 c = b1" "cy2 c = b2" "textX c = t1" "textY c = t2"
    "rotation c = rotation s" "points c = map_option (map (rotateAbout (cx, cy) angle)) (points s)"
    by (simp_all add: c_def)
  have rest: "c\<lparr>shape_id := shape_id s, x1 := x1 s, y1 := y1 s, x2 := x2 s, y2 := y2 s,
          cx1 := cx1 s, cy1 := cy1 s, cx2 := cx2 s, cy2 := cy2 s,
          textX := textX s, textY := textY s, points := points s, rotation := rotation s\<rparr> = s"
    by (simp add: c_def)
  have "isCopyAtAngle (cx, cy) angle s c"
    unfolding isCopyAtAngle_def
    using False f rest a(2) b(2) t(2) p1[unfolded rotatePoint_rotateAbout] p2[unfolded rotatePoint_rotateAbout]
    by simp
  with m f(1) show ?thesis by blast
qed

text \<open>
  The circular pattern as the handler runs it.  With an empty selection or a count below 2
  it changes nothing.  With a count \<open>N \<ge> 2\<close>, some shape selected and the optional
  coordinates of the selected shapes in pairs, it completes and appends one guide circle
  followed by the copies: the guide is a dashed circle marked \<open>isGuide\<close>, centered at the
  pivot, whose radius is the distance from the pivot to the center of the box spanned by
  the stored points of the selected shapes; there are \<open>N - 1\<close> copies per selected shape,
  the \<open>i\<close>-th of them the copy of the shape at angle \<open>i * 2 * pi / N\<close> about the pivot, under
  its own draw of the id generator; the selection becomes the selected shapes and the
  copies; and the mode is \<open>pan\<close>.
\<close>

theorem circular_pattern_result:
  "(selectedShapeIds st = {} \<or> circularCount st < 2 \<longrightarrow>
      handleCircularPatternCenter rnd cx cy st = Some st)
   \<and> (2 \<le> circularCount st \<and> selectedShapes st \<noteq> []
       \<and> (\<forall>s \<in> set (selectedShapes st). pairedCoordinates s) \<longrightarrow>
      (\<exists>st' g copies.
         handleCircularPatternCenter rnd cx cy st = Some st'
         \<and> shapes st' = shapes st @ g # copies
         \<and> shape_type g = ''circle'' \<and> style g = dashed \<and> isGuide g = Some True
         \<and> x1 g = cx \<and> y1 g = cy
         \<and> circleRadius g = pointDistance (storedPointsCenter (selectedShapes st)) (cx, cy)
         \<and> length copies = length (selectedShapes st) * nat (circularCount st - 1)
         \<and> (\<forall>j < length (selectedShapes st). \<forall>i \<in> {1 .. nat (circularCount st - 1)}.
               isCopyAtAngle (cx, cy) (real i * (2 * pi / of_int (circularCount st)))
                 (selectedShapes st ! j) (copies ! (j * nat (circularCount st - 1) + (i - 1)))
               \<and> shape_id (copies ! (j * nat (circularCount st - 1) + (i - 1)))
                   = rnd (Suc (draws st) + j * nat (circularCount st - 1) + (i - 1)))
         \<and> selectedShapeIds st' = shape_id ` set (selectedShapes st) \<union> shape_id ` set copies
         \<and> mode st' = pan))"
proof (intro conjI impI)
  assume "selectedShapeIds st = {} \<or> circularCount st < 2"
  then show "handleCircularPatternCenter rnd cx cy st = Some st"
    by (auto simp: handleCircularPatternCenter_def)
next
  assume a: "2 \<le> circularCount st \<and> selectedShapes st \<noteq> []
       \<and> (\<forall>s \<in> set (selectedShapes st). pairedCoordinates s)"
  let ?n = "nat (circularCount st - 1)"
  from a have cnt: "2 \<le> circularCount st" and ne: "selectedShapes st \<noteq> []"
    and pr: "\<forall>s \<in> set (selectedShapes st). pairedCoordinates s" by simp_all
  from circular_pattern_run[OF cnt ne pr, of rnd cx cy] obtain st' g copies where
    r: "handleCircularPatternCenter rnd cx cy st = Some st'"
       "shapes st' = shapes st @ g # copies"
       "shape_type g = ''circle''" "style g = dashed" "isGuide g = Some True"
       "x1 g = cx" "y1 g = cy"
       "circleRadius g = pointDistance (storedPointsCenter (selectedShapes st)) (cx, cy)"
       "length copies = length (selectedShapes st) * ?n"
       "\<forall>j < length (selectedShapes st). \<forall>m < ?n.
            circularCopy cx cy ((1 + real m) * (2 * pi / of_int (circularCount st)))
              (rnd (Suc (draws st) + j * ?n + m)) (selectedShapes st ! j)
            = Some (copies ! (j * ?n + m))"
       "selectedShapeIds st' = shape_id ` set (selectedShapes st) \<union> shape_id ` set copies"
       "mode st' = pan"
    by (elim exE conjE) (rule that)
  have nth: "isCopyAtAngle (cx, cy) (real i * (2 * pi / of_int (circularCount st)))
                 (selectedShapes st ! j) (copies ! (j * ?n + (i - 1)))
               \<and> shape_id (copies ! (j * ?n + (i - 1))) = rnd (Suc (draws st) + j * ?n + (i - 1))"
    if j: "j < length (selectedShapes st)" and i: "i \<in> {1 .. ?n}" for j i
  proof -
    from i have m: "i - 1 < ?n" and i1: "1 + real (i - 1) = real i" by auto
    from r(10) j m have cc: "circularCopy cx cy (real i * (2 * pi / of_int (circularCount st)))
        (rnd (Suc (draws st) + j * ?n + (i - 1))) (selectedShapes st ! j)
        = Some (copies ! (j * ?n + (i - 1)))" unfolding i1[symmetric] by blast
    from j pr have ps: "pairedCoordinates (selectedShapes st ! j)" by simp
    from circularCopy_spec[OF ps, of cx cy "real i * (2 * pi / of_int (circularCount st))"
        "rnd (Suc (draws st) + j * ?n + (i - 1))"] cc
    show ?thesis by auto
  qed
  show "\<exists>st' g copies.
         handleCircularPatternCenter rnd cx cy st = Some st'
         \<and> shapes st' = shapes st @ g # copies
         \<and> shape_type g = ''circle'' \<and> style g = dashed \<and> isGuide g = Some True
         \<and> x1 g = cx \<and> y1 g = cy
         \<and> circleRadius g = pointDistance (storedPointsCenter (selectedShapes st)) (cx, cy)
         \<and> length copies = length (selectedShapes st) * nat (circularCount st - 1)
         \<and> (\<forall>j < length (selectedShapes st). \<forall>i \<in> {1 .. nat (circularCount st - 1)}.
               isCopyAtAngle (cx, cy) (real i * (2 * pi / of_int (circularCount st)))
                 (selectedShapes st ! j) (copies ! (j * nat (circularCount st - 1) + (i - 1)))
               \<and> shape_id (copies ! (j * nat (circularCount st - 1) + (i - 1)))
                   = rnd (Suc (draws st) + j * nat (circularCount st - 1) + (i - 1)))
         \<and> selectedShapeIds st' = shape_id ` set (selectedShapes st) \<union> shape_id ` set copies
         \<and> mode st' = pan"
    using r(1-9) r(11,12) nth
    by (intro exI[of _ st'] exI[of _ g] exI[of _ copies]) simp
qed

theorem circular_pattern_result_witness:
  "\<exists>st' g copies.
     handleCircularPatternCenter demoRnd 3 0 squareApp = Some st'
     \<and> shapes st' = shapes squareApp @ g # copies
     \<and> isGuide g = Some True \<and> style g = dashed \<and> x1 g = 3 \<and> y1 g = 0
     \<and> circleRadius g = 3 \<and> length copies = 3 \<and> mode st' = pan"
proof -
  have sel: "selectedShapes squareApp = [mkShape ''a'' ''rect'' (- 1) (- 1) 1 1]"
    by (simp add: selectedShapes_def squareApp_def mkApp_def mkShape_def)
  have h: "2 \<le> circularCount squareApp \<and> selectedShapes squareApp \<noteq> []
       \<and> (\<forall>s \<in> set (selectedShapes squareApp). pairedCoordinates s)"
    unfolding sel by (simp add: squareApp_def mkApp_def pairedCoordinates_def mkShape_def)
  have s9: "sqrt 9 = (3::real)" by (rule real_sqrt_unique) simp_all
  have d: "pointDistance (storedPointsCenter [mkShape ''a'' ''rect'' (- 1) (- 1) 1 1]) (3, 0) = 3"
    by (simp add: pointDistance_def storedPointsCenter_def mkShape_def cmod_def s9)
  have n: "length [mkShape ''a'' ''rect'' (- 1) (- 1) 1 1] * nat (circularCount squareApp - 1) = 3"
    by (simp add: squareApp_def mkApp_def)
  from circular_pattern_result[of squareApp demoRnd 3 0, THEN conjunct2, THEN mp, OF h, unfolded sel d n]
  obtain st' g copies where
    "handleCircularPatternCenter demoRnd 3 0 squareApp = Some st'"
    "shapes st' = shapes squareApp @ g # copies"
    "style g = dashed" "isGuide g = Some True" "x1 g = 3" "y1 g = 0"
    "circleRadius g = 3" "length copies = 3" "mode st' = pan"
    by (elim exE conjE) (rule that)
  then show ?thesis by blast
qed

text \<open>
  Claim C6.  The guide circle is to have for its radius the distance from the pivot to the
  center of the selection's bounding box.  For the circle of radius 1 about the origin,
  patterned about the pivot \<open>(3, 0)\<close> with count 4, that box is \<open>[-1, 1] \<times> [-1, 1]\<close>, its
  center is the origin and the distance is 3, which is also the distance from the pivot to
  the center of the first copy.  The handler folds the center \<open>(0, 0)\<close> and the rim point
  \<open>(1, 0)\<close> of the circle as if they were two corners, takes \<open>(1/2, 0)\<close> for the center of
  the selection and gives the guide circle the radius \<open>5/2\<close>.  A few lines further down
  the same handler takes \<open>(x1, y1)\<close> for the center of a circle, and the export's
  \<open>getBounds\<close> takes center plus and minus radius for its bounds.
\<close>

theorem circular_guide_circle_radius:
  "map_option (\<lambda>st'. (shape_type (shapes st' ! 1), style (shapes st' ! 1), isGuide (shapes st' ! 1),
                        x1 (shapes st' ! 1), y1 (shapes st' ! 1), circleRadius (shapes st' ! 1)))
     (handleCircularPatternCenter demoRnd 3 0 circleApp)
     = Some (''circle'', dashed, Some True, 3, 0, 5 / 2)
   \<and> pointDistance (boxCenter (circleBox unitCircle)) (3, 0) = 3
   \<and> map_option (\<lambda>st'. pointDistance (shapeCenter (shapes st' ! 2)) (3, 0))
     (handleCircularPatternCenter demoRnd 3 0 circleApp) = Some 3"
proof -
  have s1: "sqrt (25 / 4) = (5 / 2 :: real)" by (rule real_sqrt_unique) (simp_all add: power2_eq_square)
  have s2: "sqrt 9 = (3 :: real)" by (rule real_sqrt_unique) simp_all
  have a: "map_option (\<lambda>st'. (shape_type (shapes st' ! 1), style (shapes st' ! 1), isGuide (shapes st' ! 1),
                        x1 (shapes st' ! 1), y1 (shapes st' ! 1), circleRadius (shapes st' ! 1)))
     (handleCircularPatternCenter demoRnd 3 0 circleApp)
     = Some (''circle'', dashed, Some True, 3, 0, 5 / 2)"
    by (simp add: handleCircularPatternCenter_def circleApp_def unitCircle_def mkApp_def mkShape_def
        selectedShapes_def saveHistory_def circularCopies.simps circularCopy_def rotatePair_def
        rotatePoint_def circleRadius_def demoRnd_def orZero_def Let_def s1)
  have b: "pointDistance (boxCenter (circleBox unitCircle)) (3, 0) = 3"
    by (simp add: pointDistance_def circleBox_def circleRadius_def unitCircle_def mkShape_def cmod_def s2)
  have c: "map_option (\<lambda>st'. pointDistance (shapeCenter (shapes st' ! 2)) (3, 0))
     (handleCircularPatternCenter demoRnd 3 0 circleApp) = Some 3"
    by (simp add: handleCircularPatternCenter_def circleApp_def unitCircle_def mkApp_def mkShape_def
        selectedShapes_def saveHistory_def circularCopies.simps circularCopy_def rotatePair_def
        rotatePoint_def shapeCenter_def pointDistance_def cmod_def demoRnd_def orZero_def Let_def s2)
  show ?thesis using a b c by (intro conjI)
qed

text \<open>
  Claim C3, with the example as the code computes it.  In a circular pattern about the
  pivot \<open>(cx, cy)\<close> with count \<open>N\<close>, the \<open>i\<close>-th copy of a selected box-based shape has for
  its own center the original center rotated about the pivot by \<open>i * 2 * pi / N\<close>, the same
  width, height and radius, the original rotation plus that angle, and control points and
  label anchor rotated about the original center of the shape.
\<close>

theorem circular_box_copies:
  "2 \<le> circularCount st \<Longrightarrow> \<forall>s \<in> set (selectedShapes st). pairedCoordinates s \<Longrightarrow>
   j < length (selectedShapes st) \<Longrightarrow>
   shape_type (selectedShapes st ! j) \<in> {''rect'', ''round_rect'', ''circle'', ''ellipse'', ''arc'', ''text''} \<Longrightarrow>
   1 \<le> i \<Longrightarrow> i \<le> nat (circularCount st - 1) \<Longrightarrow>
   \<exists>st' c.
     handleCircularPatternCenter rnd cx cy st = Some st'
     \<and> c = shapes st' ! (length (shapes st) + 1 + j * nat (circularCount st - 1) + (i - 1))
     \<and> shapeCenter c
         = rotateAbout (cx, cy) (real i * (2 * pi / of_int (circularCount st)))
             (shapeCenter (selectedShapes st ! j))
     \<and> x2 c - x1 c = x2 (selectedShapes st ! j) - x1 (selectedShapes st ! j)
     \<and> y2 c - y1 c = y2 (selectedShapes st ! j) - y1 (selectedShapes st ! j)
     \<and> circleRadius c = circleRadius (selectedShapes st ! j)
     \<and> rotation c
         = Some (orZero (rotation (selectedShapes st ! j)) + real i * (2 * pi / of_int (circularCount st)))
     \<and> rotatedPair (shapeCenter (selectedShapes st ! j)) (real i * (2 * pi / of_int (circularCount st)))
         (cx1 (selectedShapes st ! j)) (cy1 (selectedShapes st ! j)) (cx1 c) (cy1 c)
     \<and> rotatedPair (shapeCenter (selectedShapes st ! j)) (real i * (2 * pi / of_int (circularCount st)))
         (cx2 (selectedShapes st ! j)) (cy2 (selectedShapes st ! j)) (cx2 c) (cy2 c)
     \<and> rotatedPair (shapeCenter (selectedShapes st ! j)) (real i * (2 * pi / of_int (circularCount st)))
         (textX (selectedShapes st ! j)) (textY (selectedShapes st ! j)) (textX c) (textY c)"
proof -
  assume cnt: "2 \<le> circularCount st" and pr: "\<forall>s \<in> set (selectedShapes st). pairedCoordinates s"
    and j: "j < length (selectedShapes st)"
    and ty: "shape_type (selectedShapes st ! j) \<in> {''rect'', ''round_rect'', ''circle'', ''ellipse'', ''arc'', ''text''}"
    and i1: "1 \<le> i" and i2: "i \<le> nat (circularCount st - 1)"
  let ?n = "nat (circularCount st - 1)"
  let ?s = "selectedShapes st ! j"
  let ?a = "real i * (2 * pi / of_int (circularCount st))"
  from j have ne: "selectedShapes st \<noteq> []" by auto
  from j pr have ps: "pairedCoordinates ?s" by simp
  from circular_pattern_run[OF cnt ne pr, of rnd cx cy] obtain st' g copies where
    r: "handleCircularPatternCenter rnd cx cy st = Some st'"
       "shapes st' = shapes st @ g # copies"
       "length copies = length (selectedShapes st) * ?n"
       "\<forall>j < length (selectedShapes st). \<forall>m < ?n.
            circularCopy cx cy ((1 + real m) * (2 * pi / of_int (circularCount st)))
              (rnd (Suc (draws st) + j * ?n + m)) (selectedShapes st ! j)
            = Some (copies ! (j * ?n + m))"
    by (elim exE conjE) (rule that)
  from i1 i2 have m: "i - 1 < ?n" and ie: "1 + real (i - 1) = real i" by auto
  from r(4) j m have cc: "circularCopy cx cy ?a (rnd (Suc (draws st) + j * ?n + (i - 1))) ?s
            = Some (copies ! (j * ?n + (i - 1)))" unfolding ie[symmetric] by blast
  have idx: "shapes st' ! (length (shapes st) + 1 + j * ?n + (i - 1)) = copies ! (j * ?n + (i - 1))"
    unfolding r(2) by (simp add: nth_append add.assoc)
  from circularCopy_box[OF ty ps, of cx cy ?a "rnd (Suc (draws st) + j * ?n + (i - 1))"] cc
  have props: "shapeCenter (copies ! (j * ?n + (i - 1))) = rotateAbout (cx, cy) ?a (shapeCenter ?s)"
    "x2 (copies ! (j * ?n + (i - 1))) - x1 (copies ! (j * ?n + (i - 1))) = x2 ?s - x1 ?s"
    "y2 (copies ! (j * ?n + (i - 1))) - y1 (copies ! (j * ?n + (i - 1))) = y2 ?s - y1 ?s"
    "circleRadius (copies ! (j * ?n + (i - 1))) = circleRadius ?s"
    "rotation (copies ! (j * ?n + (i - 1))) = Some (orZero (rotation ?s) + ?a)"
    "rotatedPair (shapeCenter ?s) ?a (cx1 ?s) (cy1 ?s) (cx1 (copies ! (j * ?n + (i - 1)))) (cy1 (copies ! (j * ?n + (i - 1))))"
    "rotatedPair (shapeCenter ?s) ?a (cx2 ?s) (cy2 ?s) (cx2 (copies ! (j * ?n + (i - 1)))) (cy2 (copies ! (j * ?n + (i - 1))))"
    "rotatedPair (shapeCenter ?s) ?a (textX ?s) (textY ?s) (textX (copies ! (j * ?n + (i - 1)))) (textY (copies ! (j * ?n + (i - 1))))"
    by auto
  show ?thesis
    using r(1) props unfolding idx[symmetric]
    by (intro exI[of _ st'] exI[of _ "shapes st' ! (length (shapes st) + 1 + j * ?n + (i - 1))"]) simp
qed

theorem circular_box_copies_witness:
  "\<exists>st'. handleCircularPatternCenter demoRnd 3 0 squareApp = Some st'
     \<and> shapeCenter (shapes st' ! 2) = (3, - 3)
     \<and> x2 (shapes st' ! 2) - x1 (shapes st' ! 2) = 2
     \<and> y2 (shapes st' ! 2) - y1 (shapes st' ! 2) = 2
     \<and> rotation (shapes st' ! 2) = Some (pi / 2)"
proof -
  have sel: "selectedShapes squareApp = [mkShape ''a'' ''rect'' (- 1) (- 1) 1 1]"
    by (simp add: selectedShapes_def squareApp_def mkApp_def mkShape_def)
  have cnt: "2 \<le> circularCount squareApp" by (simp add: squareApp_def mkApp_def)
  have pr: "\<forall>s \<in> set (selectedShapes squareApp). pairedCoordinates s"
    unfolding sel by (simp add: pairedCoordinates_def mkShape_def)
  have j: "0 < length (selectedShapes squareApp)" unfolding sel by simp
  have ty: "shape_type (selectedShapes squareApp ! 0)
      \<in> {''rect'', ''round_rect'', ''circle'', ''ellipse'', ''arc'', ''text''}"
    unfolding sel by (simp add: mkShape_def)
  have i1: "1 \<le> (1::nat)" by simp
  have i2: "(1::nat) \<le> nat (circularCount squareApp - 1)" by (simp add: squareApp_def mkApp_def)
  have n: "length (shapes squareApp) + 1 + 0 * nat (circularCount squareApp - 1) + (1 - 1) = 2"
    by (simp add: squareApp_def mkApp_def)
  have a: "real 1 * (2 * pi / of_int (circularCount squareApp)) = pi / 2"
    by (simp add: squareApp_def mkApp_def)
  have c0: "shapeCenter (mkShape ''a'' ''rect'' (- 1) (- 1) 1 1) = (0, 0)"
    by (simp add: shapeCenter_def mkShape_def)
  have rot: "rotateAbout (3, 0) (pi / 2) (0, 0) = (3, - 3)"
    by (simp add: rotateAbout_def Let_def cis.ctr)
  have dim: "x2 (mkShape ''a'' ''rect'' (- 1) (- 1) 1 1) - x1 (mkShape ''a'' ''rect'' (- 1) (- 1) 1 1) = 2"
    "y2 (mkShape ''a'' ''rect'' (- 1) (- 1) 1 1) - y1 (mkShape ''a'' ''rect'' (- 1) (- 1) 1 1) = 2"
    "orZero (rotation (mkShape ''a'' ''rect'' (- 1) (- 1) 1 1)) = 0"
    by (simp_all add: mkShape_def orZero_def)
  from circular_box_copies[OF cnt pr j ty i1 i2, of demoRnd 3 0, unfolded n a sel nth_Cons_0 c0 rot dim]
  show ?thesis by auto
qed

text \<open>
  Claim C3, the example as stated: the rect with the corners \<open>(-1, -1)\<close> and \<open>(1, 1)\<close>
  patterned about the pivot \<open>(3, 0)\<close> with count 4.  Its first copy, the third shape of the
  collection after the original and the guide circle, has its center at \<open>(3, -3)\<close>, which
  is the origin turned by a quarter about \<open>(3, 0)\<close>; \<open>(0, 3)\<close> is the pivot turned about
  the origin.
\<close>

theorem circular_first_copy_counterexample:
  "map_option (\<lambda>st'. shapeCenter (shapes st' ! 2)) (handleCircularPatternCenter demoRnd 3 0 squareApp)
     = Some (3, - 3)
   \<and> map_option (\<lambda>st'. shapeCenter (shapes st' ! 2)) (handleCircularPatternCenter demoRnd 3 0 squareApp)
     \<noteq> Some (0, 3)"
  by (simp add: handleCircularPatternCenter_def squareApp_def mkApp_def mkShape_def selectedShapes_def
      saveHistory_def circularCopies.simps circularCopy_def rotatePair_def rotatePoint_def
      shapeCenter_def demoRnd_def orZero_def Let_def)

section \<open>The undo/redo law\<close>

lemma perform_pushes:
  assumes e: "takesEffect a st" and p: "perform rnd a st = Some st1"
  shows "history st1 = history st @ [shapes st] \<and> future st1 = []"
proof (cases a)
  case (ShapeAdd sh)
  with p show ?thesis by (auto simp: handleShapeAdd_def saveHistory_def Let_def)
next
  case Duplicate
  with e p show ?thesis
    by (auto simp: handleDuplicate_def saveHistory_def Let_def split: prod.splits)
next
  case Paste
  with e p show ?thesis
    by (auto simp: handlePaste_def saveHistory_def Let_def split: prod.splits option.splits)
next
  case LinearPattern
  with e p show ?thesis
    by (auto simp: handleLinearPattern_def saveHistory_def Let_def split: prod.splits)
next
  case (CircularPattern cx cy)
  with e p show ?thesis
    by (auto simp: handleCircularPatternCenter_def saveHistory_def Let_def
        split: prod.splits option.splits)
next
  case Offset
  with e p show ?thesis
    by (auto simp: handleOffset_def saveHistory_def Let_def split: prod.splits if_splits)
next
  case (Mirror a b c d)
  with p show ?thesis
    by (auto simp: performMirror_def saveHistory_def Let_def split: prod.splits option.splits)
next
  case (Nudge ndx ndy)
  with e p show ?thesis by (auto simp: handleNudge_def saveHistory_def Let_def)
next
  case Delete
  with e p show ?thesis by (auto simp: handleDelete_def saveHistory_def Let_def)
next
  case (UpdateProperty pr)
  with e p show ?thesis by (auto simp: updateSelectedProperty_def saveHistory_def Let_def)
qed

lemma undo_after_push:
  assumes "history st1 = h @ [ss]" and "future st1 = []"
  shows "shapes (handleUndo st1) = ss" and "history (handleUndo st1) = h"
    and "future (handleUndo st1) = [shapes st1]"
    and "shapes (handleRedo (handleUndo st1)) = shapes st1"
    and "history (handleRedo (handleUndo st1)) = h @ [ss]"
    and "future (handleRedo (handleUndo st1)) = []"
  using assms by (simp_all add: handleUndo_def handleRedo_def Let_def)

text \<open>
  Claim C1.  Let \<open>a\<close> be one of the mutating operations (shape add, duplicate, paste,
  linear pattern, circular pattern, offset, mirror, nudge, delete, property update), run in
  a state \<open>st\<close> in which its handler gets past its early return, and let \<open>st1\<close> be the state
  it leaves.  Undo right after it restores the collection of \<open>st\<close>; redo right after that
  undo restores the collection of \<open>st1\<close>; and the redo stack, which that undo has filled,
  is empty after any mutating operation that takes effect next.
\<close>

theorem undo_redo_inverse:
  "takesEffect a st \<Longrightarrow> perform rnd a st = Some st1 \<Longrightarrow>
   shapes (handleUndo st1) = shapes st
   \<and> shapes (handleRedo (handleUndo st1)) = shapes st1
   \<and> future (handleUndo st1) \<noteq> []
   \<and> (\<forall>b rnd' st2. takesEffect b (handleUndo st1) \<and> perform rnd' b (handleUndo st1) = Some st2
         \<longrightarrow> future st2 = [])"
proof -
  assume e: "takesEffect a st" and p: "perform rnd a st = Some st1"
  from perform_pushes[OF e p] have h: "history st1 = history st @ [shapes st]" "future st1 = []"
    by simp_all
  from undo_after_push[OF h] have u: "shapes (handleUndo st1) = shapes st"
    "shapes (handleRedo (handleUndo st1)) = shapes st1" "future (handleUndo st1) = [shapes st1]"
    by simp_all
  have n: "future st2 = []"
    if "takesEffect b (handleUndo st1) \<and> perform rnd' b (handleUndo st1) = Some st2" for b rnd' st2
    using perform_pushes[of b "handleUndo st1" rnd' st2] that by simp
  show ?thesis using u n by simp
qed


theorem undo_redo_inverse_witness:
  "takesEffect (ShapeAdd (mkShape ''a'' ''line'' 0 0 3 4)) (mkApp [] {})
   \<and> perform demoRnd (ShapeAdd (mkShape ''a'' ''line'' 0 0 3 4)) (mkApp [] {})
       = Some (handleShapeAdd (mkShape ''a'' ''line'' 0 0 3 4) (mkApp [] {}))
   \<and> shapes (handleShapeAdd (mkShape ''a'' ''line'' 0 0 3 4) (mkApp [] {})) = [mkShape ''a'' ''line'' 0 0 3 4]
   \<and> shapes (handleUndo (handleShapeAdd (mkShape ''a'' ''line'' 0 0 3 4) (mkApp [] {}))) = []
   \<and> shapes (handleRedo (handleUndo (handleShapeAdd (mkShape ''a'' ''line'' 0 0 3 4) (mkApp [] {}))))
       = [mkShape ''a'' ''line'' 0 0 3 4]
   \<and> future (handleShapeAdd (mkShape ''b'' ''line'' 1 1 2 2)
        (handleUndo (handleShapeAdd (mkShape ''a'' ''line'' 0 0 3 4) (mkApp [] {})))) = []"
proof -
  let ?l = "mkShape ''a'' ''line'' 0 0 3 4"
  let ?st1 = "handleShapeAdd ?l (mkApp [] {})"
  have e: "takesEffect (ShapeAdd ?l) (mkApp [] {})" by simp
  have p: "perform demoRnd (ShapeAdd ?l) (mkApp [] {}) = Some ?st1" by simp
  have s0: "shapes (mkApp [] {}) = []" by (simp add: mkApp_def)
  have s1: "shapes ?st1 = [?l]" by (simp add: handleShapeAdd_def saveHistory_def mkApp_def Let_def)
  note T = undo_redo_inverse[OF e p]
  from T have u: "shapes (handleUndo ?st1) = []" unfolding s0 by (elim conjE)
  from T have r: "shapes (handleRedo (handleUndo ?st1)) = [?l]" unfolding s1 by (elim conjE)
  from T have n: "\<forall>b rnd' st2. takesEffect b (handleUndo ?st1) \<and> perform rnd' b (handleUndo ?st1) = Some st2
         \<longrightarrow> future st2 = []" by (elim conjE)
  have "takesEffect (ShapeAdd (mkShape ''b'' ''line'' 1 1 2 2)) (handleUndo ?st1)
      \<and> perform demoRnd (ShapeAdd (mkShape ''b'' ''line'' 1 1 2 2)) (handleUndo ?st1)
          = Some (handleShapeAdd (mkShape ''b'' ''line'' 1 1 2 2) (handleUndo ?st1))" by simp
  with n have f: "future (handleShapeAdd (mkShape ''b'' ''line'' 1 1 2 2) (handleUndo ?st1)) = []"
    by blast
  show ?thesis using e p s1 u r f by (intro conjI)
qed

end
